theory Spec2Isabelle
  imports Main "HOL-Library.Word"
begin

section \<open>Data of the startup orchestrator (main.go)\<close>

text \<open>
  The program is the entry point of an etcd node: \<open>main\<close> chooses between
  \<open>startEtcd\<close> and \<open>startProxy\<close>; \<open>startEtcd\<close> validates the configuration,
  prepares the data directory, either bootstraps a fresh consensus node or restarts one
  from the snapshot and the write-ahead log, and then launches the peer and client
  endpoints. Everything it calls (cluster, discovery, wal, snap, store, raft, transport)
  lives in other packages; their operations are fields of the record \<open>extern\<close> below, and
  every call the program makes on them is written to a trace together with what it returned.
\<close>

type_synonym int64 = "64 word"

datatype error = ErrNoSnapshot | Err string

record Member =
  Name :: string
  ID :: int64
  PeerURL :: string

type_synonym Cluster = "Member list"

record TLSInfo =
  CAFile :: string
  CertFile :: string
  KeyFile :: string

type_synonym CORSInfo = "string list"

record Snapshot =
  Index :: int64
  Data :: "8 word list"

record Entry =
  ent_Term :: int64
  ent_Index :: int64
  ent_Data :: "8 word list"

record HardState =
  hs_Term :: int64
  hs_Vote :: int64
  hs_Commit :: int64

text \<open>The package-level variables of main.go, as \<open>flag.Parse\<close> leaves them.\<close>

record flags =
  name :: string
  timeout :: int
  paddr :: string
  dir :: string
  durl :: string
  purls :: string
  snapCount :: int64
  printVersion :: bool
  cluster :: Cluster
  addrs :: "string list"
  cors :: CORSInfo
  proxyFlag :: string
  clientTLSInfo :: TLSInfo
  peerTLSInfo :: TLSInfo

text \<open>
  The value of \<open>raft.Node\<close>: the handle is opaque to main.go, so it is represented by the
  call that made it, \<open>raft.StartNode(id, peers, election, heartbeat)\<close> or
  \<open>raft.RestartNode(id, peers, election, heartbeat, snapshot, st, ents)\<close>.
\<close>

datatype node =
  StartNode int64 "int64 list" int int
| RestartNode int64 "int64 list" int int "Snapshot option" HardState "Entry list"

text \<open>Request handlers, by the constructor calls that build them.\<close>

datatype handler =
  ClientHandler int
| PeerHandler
| ProxyHandler "string list"
| ReadonlyHandler handler
| CORSHandler handler CORSInfo

text \<open>
  One event per call that leaves the orchestrator, in program order, with the arguments
  and the returned value. \<open>EvGoServe addr h\<close> is the statement
  \<open>go func() { ...; log.Fatal(http.Serve(l, h)) }()\<close> for the listener bound to \<open>addr\<close>.
\<close>

datatype event =
  EvPrintln string
| EvSetFlagsFromEnv
| EvLogPrintf string
| EvMkdirAll string nat "error option"
| EvWalExist string bool
| EvDiscoveryNew string int64 string "error option"
| EvDiscover "error + Cluster"
| EvWalCreate string "error option"
| EvSnapLoad "Snapshot option" "error option"
| EvStoreRecovery "8 word list" "error option"
| EvWalOpenAtIndex string int64 "error option"
| EvWalReadAll "error + int64 \<times> HardState \<times> Entry list"
| EvRaftInit node
| EvNewTransport TLSInfo "error option"
| EvProxyNewHandler "string list" "error option"
| EvServerStart
| EvNewListener string TLSInfo "error option"
| EvGoServe string handler

text \<open>Every \<open>log.Fatal\<close> and \<open>log.Fatalf\<close> of main.go, one constructor per call site.\<close>

datatype fatal =
  FatalNoMember string
| FatalNoneID int64
| FatalSnapCount int64
| FatalDataDir error
| FatalSnapDir error
| FatalDiscoveryRequiresPurls
| FatalDiscoveryInit error
| FatalDiscover error
| FatalWalCreate error
| FatalSnapLoad error
| FatalWalOpen error
| FatalWalReadAll error
| FatalUnexpectedNodeID int64
| FatalTransport error
| FatalProxyHandler error
| FatalListener error

text \<open>
  The collaborators. \<open>'w\<close> is the state of everything outside the orchestrator
  (file system, network, and the objects the collaborators hand out: the WAL, the
  discoverer, transports and listeners); \<open>'s\<close> is the in-memory key-value store.
  An operation takes the state and returns its result with the new state.
  \<open>raft_None\<close>, \<open>ProxyValueOff\<close> and \<open>ProxyValueReadonly\<close> are constants declared in
  packages outside main.go; \<open>path_Join\<close> is the standard library's \<open>path.Join\<close>.
\<close>

record ('w, 's) extern =
  raft_None :: int64
  ProxyValueOff :: string
  ProxyValueReadonly :: string
  path_Join :: "string \<Rightarrow> string \<Rightarrow> string"
  SetFlagsFromEnv :: "'w \<Rightarrow> flags \<Rightarrow> flags"
  MkdirAll :: "'w \<Rightarrow> string \<Rightarrow> nat \<Rightarrow> error option \<times> 'w"
  wal_Exist :: "'w \<Rightarrow> string \<Rightarrow> bool"
  discovery_New :: "'w \<Rightarrow> string \<Rightarrow> int64 \<Rightarrow> string \<Rightarrow> error option \<times> 'w"
  Discover :: "'w \<Rightarrow> (error + Cluster) \<times> 'w"
  wal_Create :: "'w \<Rightarrow> string \<Rightarrow> error option \<times> 'w"
  snap_Load :: "'w \<Rightarrow> string \<Rightarrow> (Snapshot option \<times> error option) \<times> 'w"
  store_New :: "'s"
  store_Recovery :: "'s \<Rightarrow> 8 word list \<Rightarrow> error option \<times> 's"
  wal_OpenAtIndex :: "'w \<Rightarrow> string \<Rightarrow> int64 \<Rightarrow> error option \<times> 'w"
  wal_ReadAll :: "'w \<Rightarrow> (error + int64 \<times> HardState \<times> Entry list) \<times> 'w"
  NewTransport :: "'w \<Rightarrow> TLSInfo \<Rightarrow> error option \<times> 'w"
  proxy_NewHandler :: "'w \<Rightarrow> string list \<Rightarrow> error option \<times> 'w"
  NewListener :: "'w \<Rightarrow> string \<Rightarrow> TLSInfo \<Rightarrow> error option \<times> 'w"

text \<open>The \<open>etcdserver.EtcdServer\<close> literal that \<open>startEtcd\<close> builds and starts.\<close>

record 's EtcdServer =
  Store :: 's
  Node :: node
  Storage :: "string \<times> string"
  Send :: "TLSInfo \<times> 's \<times> Cluster"
  Ticker :: nat
  SyncTicker :: nat
  SnapCount :: int64
  ClusterStore :: "'s \<times> Cluster"

text \<open>A run: the calls made so far and either the fatal exit or the value reached.\<close>

type_synonym 'a run = "event list \<times> (fatal + 'a)"

definition andThen :: "'a run \<Rightarrow> ('a \<Rightarrow> 'b run) \<Rightarrow> 'b run" where
  "andThen m k =
     (case m of
        (es, Inl f) \<Rightarrow> (es, Inl f)
      | (es, Inr a) \<Rightarrow> (case k a of (es', r) \<Rightarrow> (es @ es', r)))"

section \<open>Constants and formatting\<close>

definition privateDirMode :: nat where
  "privateDirMode = 7 * 64"

definition version :: string where
  "version = ''0.5.0-alpha''"

text \<open>Decimal rendering of an integer, as \<open>%v\<close> and \<open>%d\<close> print an \<open>int64\<close>.\<close>

function showNat :: "nat \<Rightarrow> string" where
  "showNat n =
     (if n < 10 then [''0123456789'' ! n]
      else showNat (n div 10) @ [''0123456789'' ! (n mod 10)])"
  by pat_completeness auto
termination
  by (relation "measure id") auto

declare showNat.simps [simp del]

definition showInt :: "int \<Rightarrow> string" where
  "showInt i = (if i < 0 then CHR ''-'' # showNat (nat (- i)) else showNat (nat i))"

definition Sprintf_int64 :: "int64 \<Rightarrow> string" where
  "Sprintf_int64 x = showInt (sint x)"

section \<open>The cluster descriptor\<close>

text \<open>
  Modelled from the spec: \<open>etcdserver.Cluster\<close> and its methods \<open>FindName\<close>, \<open>IDs\<close> and
  \<open>PeerURLs\<close> are declared outside main.go. The spec gives the contract "given a
  configured set of members and a node name, locate the member whose name matches", and
  "the full set of member IDs" of the descriptor.
\<close>

definition FindName :: "Cluster \<Rightarrow> string \<Rightarrow> Member option" where
  "FindName c n = find (\<lambda>m. Name m = n) c"

definition IDs :: "Cluster \<Rightarrow> int64 list" where
  "IDs c = map ID c"

definition PeerURLs :: "Cluster \<Rightarrow> string list" where
  "PeerURLs c = map PeerURL c"

section \<open>startEtcd\<close>

text \<open>Lines 115-126: the member lookup and the three configuration checks.\<close>

definition startEtcd_validate :: "('w, 's) extern \<Rightarrow> flags \<Rightarrow> fatal + Member" where
  "startEtcd_validate env fl =
     (case FindName (cluster fl) (name fl) of
        None \<Rightarrow> Inl (FatalNoMember (name fl))
      | Some self \<Rightarrow>
          if ID self = raft_None env then Inl (FatalNoneID (raft_None env))
          else if sint (snapCount fl) \<le> 0 then Inl (FatalSnapCount (snapCount fl))
          else Inr self)"

text \<open>
  Lines 128-141: the default data directory, the two \<open>os.MkdirAll\<close> calls and the two
  derived paths. The result is the flags with \<open>dir\<close> set, \<open>snapdir\<close>, \<open>waldir\<close> and
  the new world.
\<close>

definition defaultDir :: "Member \<Rightarrow> string" where
  "defaultDir self = Sprintf_int64 (ID self) @ ''_etcd_data''"

definition startEtcd_dirs ::
  "('w, 's) extern \<Rightarrow> flags \<Rightarrow> Member \<Rightarrow> 'w \<Rightarrow> (flags \<times> string \<times> string \<times> 'w) run" where
  "startEtcd_dirs env fl self w =
     (let d = (if dir fl = [] then defaultDir self else dir fl);
          pre = (if dir fl = []
                 then [EvLogPrintf (''main: no data-dir is given, using default data-dir ./'' @ d)]
                 else []);
          fl' = fl\<lparr>dir := d\<rparr>
      in case MkdirAll env w d privateDirMode of
           (Some e, w1) \<Rightarrow> (pre @ [EvMkdirAll d privateDirMode (Some e)], Inl (FatalDataDir e))
         | (None, w1) \<Rightarrow>
             (let snapdir = path_Join env d ''snap'' in
              case MkdirAll env w1 snapdir privateDirMode of
                (Some e, w2) \<Rightarrow>
                  (pre @ [EvMkdirAll d privateDirMode None,
                          EvMkdirAll snapdir privateDirMode (Some e)],
                   Inl (FatalSnapDir e))
              | (None, w2) \<Rightarrow>
                  (pre @ [EvMkdirAll d privateDirMode None,
                          EvMkdirAll snapdir privateDirMode None],
                   Inr (fl', snapdir, path_Join env d ''wal'', w2))))"

text \<open>
  Lines 148-161: discovery, only when \<open>-discovery\<close> is set. It rebinds the package
  variable \<open>cluster\<close> to what \<open>Discover\<close> returns.
\<close>

definition startEtcd_discovery ::
  "('w, 's) extern \<Rightarrow> flags \<Rightarrow> Member \<Rightarrow> 'w \<Rightarrow> (flags \<times> 'w) run" where
  "startEtcd_discovery env fl self w =
     (if durl fl \<noteq> [] then
        (if purls fl = [] then ([], Inl FatalDiscoveryRequiresPurls)
         else
           (let cfg = name fl @ ''='' @ purls fl in
            case discovery_New env w (durl fl) (ID self) cfg of
              (Some e, w1) \<Rightarrow>
                ([EvDiscoveryNew (durl fl) (ID self) cfg (Some e)], Inl (FatalDiscoveryInit e))
            | (None, w1) \<Rightarrow>
                (case Discover env w1 of
                   (Inl e, w2) \<Rightarrow>
                     ([EvDiscoveryNew (durl fl) (ID self) cfg None, EvDiscover (Inl e)],
                      Inl (FatalDiscover e))
                 | (Inr c, w2) \<Rightarrow>
                     ([EvDiscoveryNew (durl fl) (ID self) cfg None, EvDiscover (Inr c)],
                      Inr (fl\<lparr>cluster := c\<rparr>, w2)))))
      else ([], Inr (fl, w)))"

text \<open>Lines 148-166: the branch taken when \<open>wal.Exist(waldir)\<close> is false.\<close>

definition startEtcd_fresh ::
  "('w, 's) extern \<Rightarrow> flags \<Rightarrow> Member \<Rightarrow> string \<Rightarrow> 'w \<Rightarrow> (flags \<times> 's \<times> node \<times> 'w) run" where
  "startEtcd_fresh env fl self waldir w =
     andThen (startEtcd_discovery env fl self w) (\<lambda>(fl1, w1).
       case wal_Create env w1 waldir of
         (Some e, w2) \<Rightarrow> ([EvWalCreate waldir (Some e)], Inl (FatalWalCreate e))
       | (None, w2) \<Rightarrow>
           (let n = StartNode (ID self) (IDs (cluster fl1)) 10 1
            in ([EvWalCreate waldir None, EvRaftInit n], Inr (fl1, store_New env, n, w2))))"

text \<open>
  Lines 168-177: the snapshot load. The result of \<open>st.Recovery\<close> is not looked at;
  the store it leaves is kept. Returns the snapshot, the store and \<open>index\<close>.
\<close>

definition startEtcd_snapshot ::
  "('w, 's) extern \<Rightarrow> string \<Rightarrow> 'w \<Rightarrow> (Snapshot option \<times> 's \<times> int64 \<times> 'w) run" where
  "startEtcd_snapshot env snapdir w =
     (case snap_Load env w snapdir of
        ((snapshot, err), w1) \<Rightarrow>
          if err \<noteq> None \<and> err \<noteq> Some ErrNoSnapshot
          then ([EvSnapLoad snapshot err], Inl (FatalSnapLoad (the err)))
          else
            (case snapshot of
               Some sn \<Rightarrow>
                 (case store_Recovery env (store_New env) (Data sn) of
                    (res, st1) \<Rightarrow>
                      ([EvSnapLoad snapshot err,
                        EvLogPrintf (''etcd: restart from snapshot at index ''
                                     @ Sprintf_int64 (Index sn)),
                        EvStoreRecovery (Data sn) res],
                       Inr (snapshot, st1, Index sn, w1)))
             | None \<Rightarrow>
                 ([EvSnapLoad snapshot err], Inr (snapshot, store_New env, 0, w1))))"

text \<open>Lines 168-191: the branch taken when \<open>wal.Exist(waldir)\<close> is true.\<close>

definition startEtcd_restart ::
  "('w, 's) extern \<Rightarrow> flags \<Rightarrow> Member \<Rightarrow> string \<Rightarrow> string \<Rightarrow> 'w
     \<Rightarrow> (flags \<times> 's \<times> node \<times> 'w) run" where
  "startEtcd_restart env fl self snapdir waldir w =
     andThen (startEtcd_snapshot env snapdir w) (\<lambda>(snapshot, st, index, w1).
       case wal_OpenAtIndex env w1 waldir index of
         (Some e, w2) \<Rightarrow> ([EvWalOpenAtIndex waldir index (Some e)], Inl (FatalWalOpen e))
       | (None, w2) \<Rightarrow>
           (case wal_ReadAll env w2 of
              (Inl e, w3) \<Rightarrow>
                ([EvWalOpenAtIndex waldir index None, EvWalReadAll (Inl e)],
                 Inl (FatalWalReadAll e))
            | (Inr (wid, hst, ents), w3) \<Rightarrow>
                if wid \<noteq> 0 then
                  ([EvWalOpenAtIndex waldir index None, EvWalReadAll (Inr (wid, hst, ents))],
                   Inl (FatalUnexpectedNodeID wid))
                else
                  (let n = RestartNode (ID self) (IDs (cluster fl)) 10 1 snapshot hst ents
                   in ([EvWalOpenAtIndex waldir index None,
                        EvWalReadAll (Inr (wid, hst, ents)),
                        EvRaftInit n],
                       Inr (fl, st, n, w3)))))"

text \<open>Lines 147-192: the test of \<open>wal.Exist\<close> and the two branches.\<close>

definition startEtcd_bootstrap ::
  "('w, 's) extern \<Rightarrow> flags \<Rightarrow> Member \<Rightarrow> string \<Rightarrow> string \<Rightarrow> 'w
     \<Rightarrow> (flags \<times> 's \<times> node \<times> 'w) run" where
  "startEtcd_bootstrap env fl self snapdir waldir w =
     (if \<not> wal_Exist env w waldir
      then andThen ([EvWalExist waldir False], Inr ())
             (\<lambda>_. startEtcd_fresh env fl self waldir w)
      else andThen ([EvWalExist waldir True], Inr ())
             (\<lambda>_. startEtcd_restart env fl self snapdir waldir w))"

text \<open>Lines 234-245 and 270-281: one listener and one serving goroutine per address.\<close>

fun serveAll ::
  "('w, 's) extern \<Rightarrow> TLSInfo \<Rightarrow> handler \<Rightarrow> string list \<Rightarrow> 'w \<Rightarrow> 'w run" where
  "serveAll env tls h [] w = ([], Inr w)"
| "serveAll env tls h (addr # rest) w =
     (case NewListener env w addr tls of
        (Some e, w1) \<Rightarrow> ([EvNewListener addr tls (Some e)], Inl (FatalListener e))
      | (None, w1) \<Rightarrow>
          andThen ([EvNewListener addr tls None, EvGoServe addr h], Inr ())
            (\<lambda>_. serveAll env tls h rest w1))"

text \<open>Lines 194-245: transport, server, handlers, the peer endpoint, the client endpoints.\<close>

definition startEtcd_serve ::
  "('w, 's) extern \<Rightarrow> flags \<Rightarrow> string \<Rightarrow> string \<Rightarrow> 's \<Rightarrow> node \<Rightarrow> 'w
     \<Rightarrow> (flags \<times> 's EtcdServer \<times> 'w) run" where
  "startEtcd_serve env fl snapdir waldir st n w =
     (case NewTransport env w (peerTLSInfo fl) of
        (Some e, w1) \<Rightarrow> ([EvNewTransport (peerTLSInfo fl) (Some e)], Inl (FatalTransport e))
      | (None, w1) \<Rightarrow>
          (let cls = (st, cluster fl);
               s = \<lparr>Store = st, Node = n, Storage = (waldir, snapdir),
                    Send = (peerTLSInfo fl, cls), Ticker = 100, SyncTicker = 500,
                    SnapCount = snapCount fl, ClusterStore = cls\<rparr>;
               ch = CORSHandler (ClientHandler (timeout fl)) (cors fl);
               ph = PeerHandler
           in case NewListener env w1 (paddr fl) (peerTLSInfo fl) of
                (Some e, w2) \<Rightarrow>
                  ([EvNewTransport (peerTLSInfo fl) None, EvServerStart,
                    EvNewListener (paddr fl) (peerTLSInfo fl) (Some e)],
                   Inl (FatalListener e))
              | (None, w2) \<Rightarrow>
                  andThen
                    ([EvNewTransport (peerTLSInfo fl) None, EvServerStart,
                      EvNewListener (paddr fl) (peerTLSInfo fl) None,
                      EvGoServe (paddr fl) ph], Inr ())
                    (\<lambda>_. andThen (serveAll env (clientTLSInfo fl) ch (addrs fl) w2)
                            (\<lambda>w3. ([], Inr (fl, s, w3))))))"

text \<open>Lines 114-246.\<close>

definition startEtcd ::
  "('w, 's) extern \<Rightarrow> flags \<Rightarrow> 'w \<Rightarrow> (flags \<times> 's EtcdServer \<times> 'w) run" where
  "startEtcd env fl w =
     andThen ([], startEtcd_validate env fl) (\<lambda>self.
     andThen (startEtcd_dirs env fl self w) (\<lambda>(fl1, snapdir, waldir, w1).
     andThen (startEtcd_bootstrap env fl1 self snapdir waldir w1) (\<lambda>(fl2, st, n, w2).
       startEtcd_serve env fl2 snapdir waldir st n w2)))"

section \<open>startProxy and main\<close>

text \<open>Lines 249-282.\<close>

definition startProxy :: "('w, 's) extern \<Rightarrow> flags \<Rightarrow> 'w \<Rightarrow> 'w run" where
  "startProxy env fl w =
     (case NewTransport env w (clientTLSInfo fl) of
        (Some e, w1) \<Rightarrow> ([EvNewTransport (clientTLSInfo fl) (Some e)], Inl (FatalTransport e))
      | (None, w1) \<Rightarrow>
          (case proxy_NewHandler env w1 (PeerURLs (cluster fl)) of
             (Some e, w2) \<Rightarrow>
               ([EvNewTransport (clientTLSInfo fl) None,
                 EvProxyNewHandler (PeerURLs (cluster fl)) (Some e)],
                Inl (FatalProxyHandler e))
           | (None, w2) \<Rightarrow>
               (let ph = CORSHandler (ProxyHandler (PeerURLs (cluster fl))) (cors fl);
                    ph' = (if proxyFlag fl = ProxyValueReadonly env
                           then ReadonlyHandler ph else ph)
                in andThen
                     ([EvNewTransport (clientTLSInfo fl) None,
                       EvProxyNewHandler (PeerURLs (cluster fl)) None], Inr ())
                     (\<lambda>_. serveAll env (clientTLSInfo fl) ph' (addrs fl) w2))))"

text \<open>
  How \<open>main\<close> ends: \<open>os.Exit\<close>, a fatal log call, or the receive on a channel that
  nobody else holds, which never returns.
\<close>

datatype ending = Exited nat | Died fatal | BlockedForever

text \<open>Lines 92-111, from the parsed flags on.\<close>

definition main :: "('w, 's) extern \<Rightarrow> flags \<Rightarrow> 'w \<Rightarrow> event list \<times> ending" where
  "main env fl w =
     (if printVersion fl then ([EvPrintln (''etcd version '' @ version)], Exited 0)
      else
        (let fl1 = SetFlagsFromEnv env w fl in
         if proxyFlag fl1 = ProxyValueOff env then
           (case startEtcd env fl1 w of
              (es, Inl f) \<Rightarrow> (EvSetFlagsFromEnv # es, Died f)
            | (es, Inr _) \<Rightarrow> (EvSetFlagsFromEnv # es, BlockedForever))
         else
           (case startProxy env fl1 w of
              (es, Inl f) \<Rightarrow> (EvSetFlagsFromEnv # es, Died f)
            | (es, Inr _) \<Rightarrow> (EvSetFlagsFromEnv # es, BlockedForever))))"

section \<open>Classes of calls\<close>

text \<open>The calls of the preparation of the data directory, and log lines.\<close>

fun is_prepare :: "event \<Rightarrow> bool" where
  "is_prepare (EvLogPrintf s) = True"
| "is_prepare (EvMkdirAll p m r) = True"
| "is_prepare e = False"

text \<open>The node identifier a consensus engine was initialised with.\<close>

fun node_id :: "node \<Rightarrow> int64" where
  "node_id (StartNode i ps el hb) = i"
| "node_id (RestartNode i ps el hb s h es) = i"

fun node_peers :: "node \<Rightarrow> int64 list" where
  "node_peers (StartNode i ps el hb) = ps"
| "node_peers (RestartNode i ps el hb s h es) = ps"

text \<open>The calls to the discovery package.\<close>

fun is_discovery :: "event \<Rightarrow> bool" where
  "is_discovery (EvDiscoveryNew u i c r) = True"
| "is_discovery (EvDiscover r) = True"
| "is_discovery e = False"

text \<open>The calls that only the branch without a WAL directory makes.\<close>

fun is_fresh :: "event \<Rightarrow> bool" where
  "is_fresh (EvDiscoveryNew u i c r) = True"
| "is_fresh (EvDiscover r) = True"
| "is_fresh (EvWalCreate p r) = True"
| "is_fresh (EvRaftInit (StartNode i ps el hb)) = True"
| "is_fresh e = False"

text \<open>The calls that only the branch with a WAL directory makes.\<close>

fun is_restart :: "event \<Rightarrow> bool" where
  "is_restart (EvSnapLoad s r) = True"
| "is_restart (EvStoreRecovery d r) = True"
| "is_restart (EvWalOpenAtIndex p i r) = True"
| "is_restart (EvWalReadAll r) = True"
| "is_restart (EvRaftInit (RestartNode i ps el hb s h es)) = True"
| "is_restart e = False"

text \<open>The two initialisations of the consensus engine.\<close>

fun is_init :: "event \<Rightarrow> bool" where
  "is_init (EvRaftInit n) = True"
| "is_init e = False"

fun is_walexist :: "event \<Rightarrow> bool" where
  "is_walexist (EvWalExist p b) = True"
| "is_walexist e = False"

text \<open>The calls of the service composition: everything from line 194 on.\<close>

fun is_compose :: "event \<Rightarrow> bool" where
  "is_compose (EvNewTransport t r) = True"
| "is_compose EvServerStart = True"
| "is_compose (EvNewListener a t r) = True"
| "is_compose (EvGoServe a h) = True"
| "is_compose e = False"

text \<open>A network endpoint of this process: a listener, or a goroutine serving one.\<close>

fun is_endpoint :: "event \<Rightarrow> bool" where
  "is_endpoint (EvNewListener a t r) = True"
| "is_endpoint (EvGoServe a h) = True"
| "is_endpoint e = False"

fun is_go :: "event \<Rightarrow> bool" where
  "is_go (EvGoServe a h) = True"
| "is_go e = False"

section \<open>The contract of the durable log\<close>


section \<open>A reference world\<close>

text \<open>
  Modelled from the spec: the packages wal, snap, store, discovery and transport are not
  part of main.go. This world gives them the behaviour of the spec's collaborator
  contracts, so that the program can be run on concrete inputs:
  the durable log offers "exists(path), create(path), open-at-offset(path, index),
  read-all(handle) -> (persisted id, hard state, entries)" with "offset semantics:
  entries strictly at/after offset"; the snapshot store offers "load-latest() ->
  snapshot-or-absent"; discovery returns a cluster descriptor or an error. A second
  listener on an address already bound fails, and a snapshot with an empty payload cannot
  be applied to the store.
\<close>

record simworld =
  sw_dirs :: "string list"
  sw_wal :: "(int64 \<times> HardState \<times> Entry list) option"
  sw_ri :: int64
  sw_snap :: "Snapshot option \<times> error option"
  sw_discover :: "error + Cluster"
  sw_bound :: "string list"

definition sim :: "(simworld, 8 word list) extern" where
  "sim =
     \<lparr>raft_None = 0,
      ProxyValueOff = ''off'',
      ProxyValueReadonly = ''readonly'',
      path_Join = (\<lambda>a b. a @ ''/'' @ b),
      SetFlagsFromEnv = (\<lambda>w fl. fl),
      MkdirAll = (\<lambda>w p m. (None, w\<lparr>sw_dirs := p # sw_dirs w\<rparr>)),
      wal_Exist = (\<lambda>w p. sw_wal w \<noteq> None),
      discovery_New = (\<lambda>w u i c. (None, w)),
      Discover = (\<lambda>w. (sw_discover w, w)),
      wal_Create = (\<lambda>w p. (None, w\<lparr>sw_wal := Some (0, \<lparr>hs_Term = 0, hs_Vote = 0, hs_Commit = 0\<rparr>, [])\<rparr>)),
      snap_Load = (\<lambda>w p. (sw_snap w, w)),
      store_New = [],
      store_Recovery = (\<lambda>s d. if d = [] then (Some (Err ''cannot decode''), s) else (None, d)),
      wal_OpenAtIndex = (\<lambda>w p i.
        case sw_wal w of
          None \<Rightarrow> (Some (Err ''file not found''), w)
        | Some c \<Rightarrow> (None, w\<lparr>sw_ri := i\<rparr>)),
      wal_ReadAll = (\<lambda>w.
        case sw_wal w of
          None \<Rightarrow> (Inl (Err ''file not found''), w)
        | Some (i, h, es) \<Rightarrow>
            (Inr (i, h, filter (\<lambda>e. sint (sw_ri w) \<le> sint (ent_Index e)) es), w)),
      NewTransport = (\<lambda>w t. (None, w)),
      proxy_NewHandler = (\<lambda>w us. (None, w)),
      NewListener = (\<lambda>w a t.
        if a \<in> set (sw_bound w) then (Some (Err ''address already in use''), w)
        else (None, w\<lparr>sw_bound := a # sw_bound w\<rparr>))\<rparr>"

text \<open>The flags as \<open>init\<close> leaves them when no option is given on the command line.\<close>

definition noTLS :: TLSInfo where
  "noTLS = \<lparr>CAFile = [], CertFile = [], KeyFile = []\<rparr>"

definition defaultFlags :: flags where
  "defaultFlags =
     \<lparr>name = ''default'', timeout = 10000000000, paddr = '':7001'', dir = [], durl = [],
      purls = [], snapCount = 10000, printVersion = False,
      cluster = [\<lparr>Name = ''default'', ID = 1, PeerURL = ''localhost:8080''\<rparr>],
      addrs = [''127.0.0.1:4001''], cors = [], proxyFlag = ''off'',
      clientTLSInfo = noTLS, peerTLSInfo = noTLS\<rparr>"

definition emptyDisk :: simworld where
  "emptyDisk =
     \<lparr>sw_dirs = [], sw_wal = None, sw_ri = 0, sw_snap = (None, Some ErrNoSnapshot),
      sw_discover = Inl (Err ''no discovery service''), sw_bound = []\<rparr>"

definition entryAt :: "int64 \<Rightarrow> Entry" where
  "entryAt i = \<lparr>ent_Term = 1, ent_Index = i, ent_Data = []\<rparr>"

definition hardState1 :: HardState where
  "hardState1 = \<lparr>hs_Term = 1, hs_Vote = 1, hs_Commit = 8\<rparr>"


text \<open>Flags and disks for the scenarios of the spec.\<close>

definition flagsDiscovery :: flags where
  "flagsDiscovery = defaultFlags\<lparr>durl := ''http://disc/t'', purls := ''http://10.0.0.1:7001''\<rparr>"

definition flagsNoPurls :: flags where
  "flagsNoPurls = defaultFlags\<lparr>durl := ''http://disc/t''\<rparr>"

definition discovered :: Cluster where
  "discovered =
     [\<lparr>Name = ''default'', ID = 1, PeerURL = ''http://10.0.0.1:7001''\<rparr>,
      \<lparr>Name = ''b'', ID = 2, PeerURL = ''http://10.0.0.2:7001''\<rparr>,
      \<lparr>Name = ''c'', ID = 3, PeerURL = ''http://10.0.0.3:7001''\<rparr>]"

definition diskDiscovery :: simworld where
  "diskDiscovery = emptyDisk\<lparr>sw_discover := Inr discovered\<rparr>"

definition snapshot5 :: Snapshot where
  "snapshot5 = \<lparr>Index = 5, Data = [1]\<rparr>"

definition diskSnap5 :: simworld where
  "diskSnap5 =
     emptyDisk\<lparr>sw_wal := Some (0, hardState1, [entryAt 4, entryAt 5, entryAt 6, entryAt 7, entryAt 8]),
               sw_snap := (Some snapshot5, None)\<rparr>"

definition diskNoSnap :: simworld where
  "diskNoSnap = emptyDisk\<lparr>sw_wal := Some (0, hardState1, [entryAt 1, entryAt 2])\<rparr>"

definition diskSnapErr :: simworld where
  "diskSnapErr = diskNoSnap\<lparr>sw_snap := (None, Some (Err ''crc mismatch''))\<rparr>"

definition diskBadId :: simworld where
  "diskBadId = emptyDisk\<lparr>sw_wal := Some (7, hardState1, [entryAt 1, entryAt 2])\<rparr>"

definition diskBadPayload :: simworld where
  "diskBadPayload =
     emptyDisk\<lparr>sw_wal := Some (0, hardState1, [entryAt 5, entryAt 6]),
               sw_snap := (Some \<lparr>Index = 5, Data = []\<rparr>, None)\<rparr>"

definition flagsNobody :: flags where
  "flagsNobody = defaultFlags\<lparr>name := ''nobody''\<rparr>"

definition flagsNoneID :: flags where
  "flagsNoneID =
     defaultFlags\<lparr>cluster := [\<lparr>Name = ''default'', ID = 0, PeerURL = ''localhost:8080''\<rparr>]\<rparr>"

definition flagsSnapCount0 :: flags where
  "flagsSnapCount0 = defaultFlags\<lparr>snapCount := 0\<rparr>"

section \<open>The shape of a run\<close>

lemma andThen_cases [consumes 1, case_names stop continue]:
  assumes "andThen m k = (tr, r)"
  obtains (stop) f where "m = (tr, Inl f)" "r = Inl f"
  | (continue) es a es' where "m = (es, Inr a)" "k a = (es', r)" "tr = es @ es'"
  using assms by (auto simp: andThen_def split: prod.splits sum.splits)

lemma andThen_Inl [simp]: "andThen (es, Inl f) k = (es, Inl f)"
  by (simp add: andThen_def)

lemma andThen_Inr [simp]: "andThen (es, Inr a) k = (es @ fst (k a), snd (k a))"
  by (simp add: andThen_def split: prod.splits)

lemma startEtcd_cases [consumes 1, case_names invalid dirs boot serve]:
  assumes "startEtcd env fl w = (tr, r)"
  obtains (invalid) f where "startEtcd_validate env fl = Inl f" "tr = []" "r = Inl f"
  | (dirs) self f where "startEtcd_validate env fl = Inr self"
      "startEtcd_dirs env fl self w = (tr, Inl f)" "r = Inl f"
  | (boot) self es1 fl1 snapdir waldir w1 es2 f where "startEtcd_validate env fl = Inr self"
      "startEtcd_dirs env fl self w = (es1, Inr (fl1, snapdir, waldir, w1))"
      "startEtcd_bootstrap env fl1 self snapdir waldir w1 = (es2, Inl f)"
      "tr = es1 @ es2" "r = Inl f"
  | (serve) self es1 fl1 snapdir waldir w1 es2 fl2 st n w2 es3 where
      "startEtcd_validate env fl = Inr self"
      "startEtcd_dirs env fl self w = (es1, Inr (fl1, snapdir, waldir, w1))"
      "startEtcd_bootstrap env fl1 self snapdir waldir w1 = (es2, Inr (fl2, st, n, w2))"
      "startEtcd_serve env fl2 snapdir waldir st n w2 = (es3, r)"
      "tr = es1 @ es2 @ es3"
proof (cases "startEtcd_validate env fl")
  case (Inl f)
  with assms invalid show ?thesis by (simp add: startEtcd_def)
next
  case (Inr self)
  obtain es1 x1 where d: "startEtcd_dirs env fl self w = (es1, x1)" by force
  show ?thesis
  proof (cases x1)
    case (Inl f)
    with assms Inr d dirs show ?thesis by (simp add: startEtcd_def)
  next
    case x1: (Inr a)
    obtain fl1 snapdir waldir w1 where a: "a = (fl1, snapdir, waldir, w1)" by (cases a) auto
    obtain es2 x2 where b: "startEtcd_bootstrap env fl1 self snapdir waldir w1 = (es2, x2)" by force
    show ?thesis
    proof (cases x2)
      case (Inl f)
      with assms Inr d x1 a b boot show ?thesis by (simp add: startEtcd_def)
    next
      case x2: (Inr c)
      obtain fl2 st n w2 where c: "c = (fl2, st, n, w2)" by (cases c) auto
      obtain es3 x3 where s: "startEtcd_serve env fl2 snapdir waldir st n w2 = (es3, x3)" by force
      from assms Inr d x1 a b x2 c s have "tr = es1 @ es2 @ es3" "x3 = r"
        by (simp_all add: startEtcd_def)
      with Inr d x1 a b x2 c s serve show ?thesis by blast
    qed
  qed
qed

lemma dirs_result:
  assumes "startEtcd_dirs env fl self w = (es, Inr (fl1, snapdir, waldir, w1))"
  shows "fl1 = fl\<lparr>dir := (if dir fl = [] then defaultDir self else dir fl)\<rparr>"
    and "snapdir = path_Join env (dir fl1) ''snap''"
    and "waldir = path_Join env (dir fl1) ''wal''"
  using assms
  by (auto simp: startEtcd_dirs_def Let_def split: prod.splits option.splits if_splits)

lemma dirs_events:
  assumes "startEtcd_dirs env fl self w = (es, x)"
  shows "\<forall>e\<in>set es. is_prepare e"
  using assms
  by (auto simp: startEtcd_dirs_def Let_def split: prod.splits option.splits if_splits)

lemma bootstrap_cases [consumes 1, case_names fresh restart]:
  assumes "startEtcd_bootstrap env fl self snapdir waldir w = (es, x)"
  obtains (fresh) es' where "\<not> wal_Exist env w waldir" "es = EvWalExist waldir False # es'"
      "startEtcd_fresh env fl self waldir w = (es', x)"
  | (restart) es' where "wal_Exist env w waldir" "es = EvWalExist waldir True # es'"
      "startEtcd_restart env fl self snapdir waldir w = (es', x)"
  using assms
  by (cases "startEtcd_fresh env fl self waldir w"; cases "startEtcd_restart env fl self snapdir waldir w")
     (auto simp: startEtcd_bootstrap_def split: if_splits)

lemma discovery_cases [consumes 1, case_names off nopurls initfail discoverfail discovered]:
  assumes "startEtcd_discovery env fl self w = (es, x)"
  obtains (off) "durl fl = []" "es = []" "x = Inr (fl, w)"
  | (nopurls) "durl fl \<noteq> []" "purls fl = []" "es = []" "x = Inl FatalDiscoveryRequiresPurls"
  | (initfail) e where "durl fl \<noteq> []" "purls fl \<noteq> []"
      "es = [EvDiscoveryNew (durl fl) (ID self) (name fl @ ''='' @ purls fl) (Some e)]"
      "x = Inl (FatalDiscoveryInit e)"
  | (discoverfail) e where "durl fl \<noteq> []" "purls fl \<noteq> []"
      "es = [EvDiscoveryNew (durl fl) (ID self) (name fl @ ''='' @ purls fl) None, EvDiscover (Inl e)]"
      "x = Inl (FatalDiscover e)"
  | (discovered) c w2 where "durl fl \<noteq> []" "purls fl \<noteq> []"
      "es = [EvDiscoveryNew (durl fl) (ID self) (name fl @ ''='' @ purls fl) None, EvDiscover (Inr c)]"
      "x = Inr (fl\<lparr>cluster := c\<rparr>, w2)"
  using assms
  by (auto simp: startEtcd_discovery_def Let_def split: prod.splits option.splits sum.splits if_splits)

lemma fresh_cases [consumes 1, case_names nodisc createfail started]:
  assumes "startEtcd_fresh env fl self waldir w = (es, x)"
  obtains (nodisc) f where "startEtcd_discovery env fl self w = (es, Inl f)" "x = Inl f"
  | (createfail) es1 fl1 w1 e where "startEtcd_discovery env fl self w = (es1, Inr (fl1, w1))"
      "es = es1 @ [EvWalCreate waldir (Some e)]" "x = Inl (FatalWalCreate e)"
  | (started) es1 fl1 w1 w2 where "startEtcd_discovery env fl self w = (es1, Inr (fl1, w1))"
      "es = es1 @ [EvWalCreate waldir None, EvRaftInit (StartNode (ID self) (IDs (cluster fl1)) 10 1)]"
      "x = Inr (fl1, store_New env, StartNode (ID self) (IDs (cluster fl1)) 10 1, w2)"
  using assms unfolding startEtcd_fresh_def
  by (cases rule: andThen_cases)
     (auto simp: Let_def split: prod.splits option.splits sum.splits if_splits)

lemma snapshot_cases [consumes 1, case_names loadfail nosnap snap]:
  assumes "startEtcd_snapshot env snapdir w = (es, x)"
  obtains (loadfail) sno e where "e \<noteq> ErrNoSnapshot" "es = [EvSnapLoad sno (Some e)]"
      "x = Inl (FatalSnapLoad e)"
  | (nosnap) err w1 where "err = None \<or> err = Some ErrNoSnapshot" "es = [EvSnapLoad None err]"
      "x = Inr (None, store_New env, 0, w1)"
  | (snap) err sn res st1 w1 where "err = None \<or> err = Some ErrNoSnapshot"
      "store_Recovery env (store_New env) (Data sn) = (res, st1)"
      "es = [EvSnapLoad (Some sn) err,
             EvLogPrintf (''etcd: restart from snapshot at index '' @ Sprintf_int64 (Index sn)),
             EvStoreRecovery (Data sn) res]"
      "x = Inr (Some sn, st1, Index sn, w1)"
  using assms
  by (auto simp: startEtcd_snapshot_def Let_def split: prod.splits option.splits sum.splits if_splits)

lemma restart_cases [consumes 1, case_names snapfail openfail readfail badid restarted]:
  assumes "startEtcd_restart env fl self snapdir waldir w = (es, x)"
  obtains (snapfail) f where "startEtcd_snapshot env snapdir w = (es, Inl f)" "x = Inl f"
  | (openfail) es1 sno st index w1 e where
      "startEtcd_snapshot env snapdir w = (es1, Inr (sno, st, index, w1))"
      "es = es1 @ [EvWalOpenAtIndex waldir index (Some e)]" "x = Inl (FatalWalOpen e)"
  | (readfail) es1 sno st index w1 e where
      "startEtcd_snapshot env snapdir w = (es1, Inr (sno, st, index, w1))"
      "es = es1 @ [EvWalOpenAtIndex waldir index None, EvWalReadAll (Inl e)]"
      "x = Inl (FatalWalReadAll e)"
  | (badid) es1 sno st index w1 wid hst ents where
      "startEtcd_snapshot env snapdir w = (es1, Inr (sno, st, index, w1))" "wid \<noteq> 0"
      "es = es1 @ [EvWalOpenAtIndex waldir index None, EvWalReadAll (Inr (wid, hst, ents))]"
      "x = Inl (FatalUnexpectedNodeID wid)"
  | (restarted) es1 sno st index w1 hst ents w3 where
      "startEtcd_snapshot env snapdir w = (es1, Inr (sno, st, index, w1))"
      "es = es1 @ [EvWalOpenAtIndex waldir index None, EvWalReadAll (Inr (0, hst, ents)),
                   EvRaftInit (RestartNode (ID self) (IDs (cluster fl)) 10 1 sno hst ents)]"
      "x = Inr (fl, st, RestartNode (ID self) (IDs (cluster fl)) 10 1 sno hst ents, w3)"
  using assms unfolding startEtcd_restart_def
  by (cases rule: andThen_cases)
     (auto simp: Let_def split: prod.splits option.splits sum.splits if_splits)

lemma prepare_not:
  "is_prepare e \<Longrightarrow> \<not> is_fresh e \<and> \<not> is_restart e \<and> \<not> is_init e \<and> \<not> is_walexist e
     \<and> \<not> is_compose e \<and> \<not> is_endpoint e \<and> \<not> is_go e \<and> \<not> is_discovery e"
  by (cases e) auto

lemma fresh_not:
  "is_fresh e \<Longrightarrow> \<not> is_prepare e \<and> \<not> is_restart e \<and> \<not> is_walexist e
     \<and> \<not> is_compose e \<and> \<not> is_endpoint e \<and> \<not> is_go e"
  by (cases e rule: is_fresh.cases) auto

lemma restart_not:
  "is_restart e \<Longrightarrow> \<not> is_prepare e \<and> \<not> is_fresh e \<and> \<not> is_walexist e
     \<and> \<not> is_compose e \<and> \<not> is_endpoint e \<and> \<not> is_go e \<and> \<not> is_discovery e"
  by (cases e rule: is_restart.cases) auto

lemma compose_not:
  "is_compose e \<Longrightarrow> \<not> is_prepare e \<and> \<not> is_fresh e \<and> \<not> is_restart e \<and> \<not> is_init e
     \<and> \<not> is_walexist e \<and> \<not> is_discovery e"
  by (cases e) auto

lemma endpoint_compose: "is_endpoint e \<Longrightarrow> is_compose e"
  by (cases e) auto

lemma go_endpoint: "is_go e \<Longrightarrow> is_endpoint e"
  by (cases e) auto

lemma discovery_fresh: "is_discovery e \<Longrightarrow> is_fresh e"
  by (cases e) auto

lemma discovery_events:
  assumes "startEtcd_discovery env fl self w = (es, x)"
  shows "\<forall>e\<in>set es. is_discovery e"
  using assms by (cases rule: discovery_cases) auto

lemma fresh_events:
  assumes "startEtcd_fresh env fl self waldir w = (es, x)"
  shows "\<forall>e\<in>set es. is_fresh e"
  using assms
proof (cases rule: fresh_cases)
  case (nodisc f)
  from discovery_events [OF nodisc(1)] show ?thesis by (auto dest: discovery_fresh)
next
  case (createfail es1 fl1 w1 e)
  from discovery_events [OF createfail(1)] createfail(2) show ?thesis
    by (auto dest: discovery_fresh)
next
  case (started es1 fl1 w1 w2)
  from discovery_events [OF started(1)] started(2) show ?thesis
    by (auto dest: discovery_fresh)
qed

lemma no_init_filter: "\<forall>e\<in>set es. \<not> is_init e \<Longrightarrow> filter is_init es = []"
  by (simp add: filter_empty_conv)

lemma discovery_not_init: "is_discovery e \<Longrightarrow> \<not> is_init e"
  by (cases e) auto

lemma fresh_init:
  assumes "startEtcd_fresh env fl self waldir w = (es, x)"
  shows "filter is_init es = (case x of Inl f \<Rightarrow> [] | Inr (fl1, st, n, w1) \<Rightarrow> [EvRaftInit n])"
  using assms
proof (cases rule: fresh_cases)
  case (nodisc f)
  from discovery_events [OF nodisc(1)] have "filter is_init es = []"
    by (intro no_init_filter) (auto dest: discovery_not_init)
  with nodisc show ?thesis by simp
next
  case (createfail es1 fl1 w1 e)
  from discovery_events [OF createfail(1)] have "filter is_init es1 = []"
    by (intro no_init_filter) (auto dest: discovery_not_init)
  with createfail show ?thesis by simp
next
  case (started es1 fl1 w1 w2)
  from discovery_events [OF started(1)] have "filter is_init es1 = []"
    by (intro no_init_filter) (auto dest: discovery_not_init)
  with started show ?thesis by simp
qed

lemma snapshot_events:
  assumes "startEtcd_snapshot env snapdir w = (es, x)"
  shows "\<forall>e\<in>set es. (is_restart e \<or> is_prepare e) \<and> \<not> is_init e"
  using assms by (cases rule: snapshot_cases) auto

lemma restart_events:
  assumes "startEtcd_restart env fl self snapdir waldir w = (es, x)"
  shows "\<forall>e\<in>set es. is_restart e \<or> is_prepare e"
  using assms
proof (cases rule: restart_cases)
  case (snapfail f)
  from snapshot_events [OF snapfail(1)] show ?thesis by auto
next
  case (openfail es1 sno st index w1 e)
  from snapshot_events [OF openfail(1)] openfail(2) show ?thesis by auto
next
  case (readfail es1 sno st index w1 e)
  from snapshot_events [OF readfail(1)] readfail(2) show ?thesis by auto
next
  case (badid es1 sno st index w1 wid hst ents)
  from snapshot_events [OF badid(1)] badid(3) show ?thesis by auto
next
  case (restarted es1 sno st index w1 hst ents w3)
  from snapshot_events [OF restarted(1)] restarted(2) show ?thesis by auto
qed

lemma restart_init:
  assumes "startEtcd_restart env fl self snapdir waldir w = (es, x)"
  shows "filter is_init es = (case x of Inl f \<Rightarrow> [] | Inr (fl1, st, n, w1) \<Rightarrow> [EvRaftInit n])"
  using assms
proof (cases rule: restart_cases)
  case (snapfail f)
  from snapshot_events [OF snapfail(1)] have "filter is_init es = []"
    by (intro no_init_filter) auto
  with snapfail show ?thesis by simp
next
  case (openfail es1 sno st index w1 e)
  from snapshot_events [OF openfail(1)] have "filter is_init es1 = []"
    by (intro no_init_filter) auto
  with openfail show ?thesis by simp
next
  case (readfail es1 sno st index w1 e)
  from snapshot_events [OF readfail(1)] have "filter is_init es1 = []"
    by (intro no_init_filter) auto
  with readfail show ?thesis by simp
next
  case (badid es1 sno st index w1 wid hst ents)
  from snapshot_events [OF badid(1)] have "filter is_init es1 = []"
    by (intro no_init_filter) auto
  with badid show ?thesis by simp
next
  case (restarted es1 sno st index w1 hst ents w3)
  from snapshot_events [OF restarted(1)] have "filter is_init es1 = []"
    by (intro no_init_filter) auto
  with restarted show ?thesis by simp
qed

lemma serveAll_events:
  "serveAll env tls h as w = (es, x) \<Longrightarrow> \<forall>e\<in>set es. is_endpoint e"
proof (induction as arbitrary: w es x)
  case Nil
  then show ?case by simp
next
  case (Cons a as)
  show ?case
  proof (cases "NewListener env w a tls")
    case (Pair res w1)
    show ?thesis
    proof (cases res)
      case None
      obtain es' x' where r: "serveAll env tls h as w1 = (es', x')" by force
      with Cons.prems Pair None have "es = [EvNewListener a tls None, EvGoServe a h] @ es'"
        by simp
      with Cons.IH [OF r] show ?thesis by auto
    next
      case (Some e)
      with Cons.prems Pair show ?thesis by auto
    qed
  qed
qed

lemma serveAll_launched:
  "serveAll env tls h as w = (es, Inr w') \<Longrightarrow>
     length (filter is_go es) = length as \<and> (as \<noteq> [] \<longrightarrow> es \<noteq> [] \<and> is_go (last es))"
proof (induction as arbitrary: w es)
  case Nil
  then show ?case by simp
next
  case (Cons a as)
  show ?case
  proof (cases "NewListener env w a tls")
    case (Pair res w1)
    show ?thesis
    proof (cases res)
      case None
      obtain es' x' where r: "serveAll env tls h as w1 = (es', x')" by force
      with Cons.prems Pair None
      have es: "es = [EvNewListener a tls None, EvGoServe a h] @ es'" and x': "x' = Inr w'"
        by simp_all
      from Cons.IH [OF r [unfolded x']] es r show ?thesis by (cases "as = []") auto
    next
      case (Some e)
      with Cons.prems Pair show ?thesis by auto
    qed
  qed
qed

lemma serve_cases [consumes 1, case_names transportfail peerfail clients]:
  assumes "startEtcd_serve env fl snapdir waldir st n w = (es, x)"
  obtains (transportfail) e where "es = [EvNewTransport (peerTLSInfo fl) (Some e)]"
      "x = Inl (FatalTransport e)"
  | (peerfail) e where
      "es = [EvNewTransport (peerTLSInfo fl) None, EvServerStart,
             EvNewListener (paddr fl) (peerTLSInfo fl) (Some e)]"
      "x = Inl (FatalListener e)"
  | (clients) w2 es' y where
      "serveAll env (clientTLSInfo fl) (CORSHandler (ClientHandler (timeout fl)) (cors fl))
         (addrs fl) w2 = (es', y)"
      "es = [EvNewTransport (peerTLSInfo fl) None, EvServerStart,
             EvNewListener (paddr fl) (peerTLSInfo fl) None,
             EvGoServe (paddr fl) PeerHandler] @ es'"
      "x = (case y of Inl f \<Rightarrow> Inl f
            | Inr w3 \<Rightarrow> Inr (fl, \<lparr>Store = st, Node = n, Storage = (waldir, snapdir),
                Send = (peerTLSInfo fl, st, cluster fl), Ticker = 100, SyncTicker = 500,
                SnapCount = snapCount fl, ClusterStore = (st, cluster fl)\<rparr>, w3))"
proof (cases "NewTransport env w (peerTLSInfo fl)")
  case (Pair r1 w1)
  show ?thesis
  proof (cases r1)
    case (Some e)
    with assms Pair show ?thesis
      by (intro transportfail [of e]) (auto simp: startEtcd_serve_def)
  next
    case None
    show ?thesis
    proof (cases "NewListener env w1 (paddr fl) (peerTLSInfo fl)")
      case p2: (Pair r2 w2)
      show ?thesis
      proof (cases r2)
        case (Some e)
        with assms Pair None p2 show ?thesis
          by (intro peerfail [of e]) (auto simp: startEtcd_serve_def)
      next
        case n2: None
        obtain es' y where sa: "serveAll env (clientTLSInfo fl)
            (CORSHandler (ClientHandler (timeout fl)) (cors fl)) (addrs fl) w2 = (es', y)"
          by force
        with assms Pair None p2 n2 show ?thesis
          by (intro clients [OF sa]) (auto simp: startEtcd_serve_def andThen_def Let_def split: sum.splits)
      qed
    qed
  qed
qed

lemma serve_events:
  assumes "startEtcd_serve env fl snapdir waldir st n w = (es, x)"
  shows "\<forall>e\<in>set es. is_compose e"
  using assms
proof (cases rule: serve_cases)
  case (clients w2 es' y)
  from serveAll_events [OF clients(1)] clients(2) show ?thesis
    by (auto dest: endpoint_compose)
qed auto


lemma filter_none: "\<forall>e\<in>set es. Q e \<Longrightarrow> (\<And>e. Q e \<Longrightarrow> \<not> P e) \<Longrightarrow> filter P es = []"
  by (auto simp: filter_empty_conv)

lemma split_after:
  assumes "xs @ ys = pre @ e # post" and "\<forall>x\<in>set xs. \<not> P x" and "P e"
  shows "\<exists>pre'. pre = xs @ pre' \<and> ys = pre' @ e # post"
proof -
  from assms(1) obtain us where
    "(xs = pre @ us \<and> us @ ys = e # post) \<or> (xs @ us = pre \<and> ys = us @ e # post)"
    by (auto simp: append_eq_append_conv2)
  then show ?thesis
  proof
    assume a: "xs = pre @ us \<and> us @ ys = e # post"
    show ?thesis
    proof (cases us)
      case Nil
      with a show ?thesis by simp
    next
      case (Cons u us')
      with a have "e \<in> set xs" by simp
      with assms(2,3) show ?thesis by blast
    qed
  next
    assume "xs @ us = pre \<and> ys = us @ e # post"
    then show ?thesis by blast
  qed
qed

lemma startEtcd_paths [consumes 1, case_names invalid dirs fresh restart]:
  assumes "startEtcd env fl w = (tr, r)"
  obtains (invalid) f where "startEtcd_validate env fl = Inl f" "tr = []" "r = Inl f"
  | (dirs) self f where "startEtcd_validate env fl = Inr self"
      "startEtcd_dirs env fl self w = (tr, Inl f)" "r = Inl f"
  | (fresh) self es1 fl1 snapdir waldir w1 es2 x2 es3 where
      "startEtcd_validate env fl = Inr self"
      "startEtcd_dirs env fl self w = (es1, Inr (fl1, snapdir, waldir, w1))"
      "\<not> wal_Exist env w1 waldir"
      "startEtcd_fresh env fl1 self waldir w1 = (es2, x2)"
      "tr = es1 @ EvWalExist waldir False # es2 @ es3"
      "case x2 of Inl f \<Rightarrow> es3 = [] \<and> r = Inl f
       | Inr (fl2, st, n, w2) \<Rightarrow> startEtcd_serve env fl2 snapdir waldir st n w2 = (es3, r)"
  | (restart) self es1 fl1 snapdir waldir w1 es2 x2 es3 where
      "startEtcd_validate env fl = Inr self"
      "startEtcd_dirs env fl self w = (es1, Inr (fl1, snapdir, waldir, w1))"
      "wal_Exist env w1 waldir"
      "startEtcd_restart env fl1 self snapdir waldir w1 = (es2, x2)"
      "tr = es1 @ EvWalExist waldir True # es2 @ es3"
      "case x2 of Inl f \<Rightarrow> es3 = [] \<and> r = Inl f
       | Inr (fl2, st, n, w2) \<Rightarrow> startEtcd_serve env fl2 snapdir waldir st n w2 = (es3, r)"
  using assms
proof (cases rule: startEtcd_cases)
  case (invalid f)
  then show ?thesis by (rule that(1))
next
  case (dirs self f)
  then show ?thesis by (rule that(2))
next
  case (boot self es1 fl1 snapdir waldir w1 es2 f)
  from boot(3) show ?thesis
  proof (cases rule: bootstrap_cases)
    case (fresh es')
    show ?thesis
      by (rule that(3) [OF boot(1,2) fresh(1,3), of "[]"]) (simp_all add: boot fresh)
  next
    case (restart es')
    show ?thesis
      by (rule that(4) [OF boot(1,2) restart(1,3), of "[]"]) (simp_all add: boot restart)
  qed
next
  case (serve self es1 fl1 snapdir waldir w1 es2 fl2 st n w2 es3)
  from serve(3) show ?thesis
  proof (cases rule: bootstrap_cases)
    case (fresh es')
    show ?thesis
      by (rule that(3) [OF serve(1,2) fresh(1,3), of es3]) (simp_all add: serve fresh)
  next
    case (restart es')
    show ?thesis
      by (rule that(4) [OF serve(1,2) restart(1,3), of es3]) (simp_all add: serve restart)
  qed
qed

lemma tail_events:
  assumes "case x2 of Inl f \<Rightarrow> es3 = [] \<and> r = Inl f
       | Inr (fl2, st, n, w2) \<Rightarrow> startEtcd_serve env fl2 snapdir waldir st n w2 = (es3, r)"
  shows "\<forall>e\<in>set es3. is_compose e"
  using assms by (auto split: sum.splits dest: serve_events)

lemma validate_cases [consumes 1, case_names ok]:
  assumes "startEtcd_validate env fl = Inr self"
  obtains "FindName (cluster fl) (name fl) = Some self" "ID self \<noteq> raft_None env"
    "0 < sint (snapCount fl)"
  using assms by (auto simp: startEtcd_validate_def split: option.splits if_splits)





lemma FindName_Some: "FindName c n = Some m \<Longrightarrow> m \<in> set c \<and> Name m = n"
  by (auto simp: FindName_def find_Some_iff)

lemma FindName_None: "FindName c n = None \<longleftrightarrow> (\<forall>m\<in>set c. Name m \<noteq> n)"
  by (auto simp: FindName_def find_None_iff)

lemma unique_name:
  assumes "distinct (map Name c)" "m \<in> set c" "m' \<in> set c" "Name m = Name m'"
  shows "m = m'"
  using assms by (auto simp: distinct_map dest: inj_onD)

lemma fresh_node:
  assumes "startEtcd_fresh env fl self waldir w = (es, x)" "EvRaftInit n \<in> set es"
  shows "\<exists>ps. n = StartNode (ID self) ps 10 1"
  using assms(1)
proof (cases rule: fresh_cases)
  case (nodisc f)
  from discovery_events [OF nodisc(1)] assms(2) show ?thesis by auto
next
  case (createfail es1 fl1 w1 e)
  from discovery_events [OF createfail(1)] createfail(2) assms(2) show ?thesis by auto
next
  case (started es1 fl1 w1 w2)
  from discovery_events [OF started(1)] started(2) assms(2) show ?thesis by auto
qed

lemma restart_node:
  assumes "startEtcd_restart env fl self snapdir waldir w = (es, x)" "EvRaftInit n \<in> set es"
  shows "\<exists>sno hst ents. n = RestartNode (ID self) (IDs (cluster fl)) 10 1 sno hst ents"
  using assms(1)
proof (cases rule: restart_cases)
  case (snapfail f)
  from snapshot_events [OF snapfail(1)] assms(2) show ?thesis by auto
next
  case (openfail es1 sno st index w1 e)
  from snapshot_events [OF openfail(1)] openfail(2) assms(2) show ?thesis by auto
next
  case (readfail es1 sno st index w1 e)
  from snapshot_events [OF readfail(1)] readfail(2) assms(2) show ?thesis by auto
next
  case (badid es1 sno st index w1 wid hst ents)
  from snapshot_events [OF badid(1)] badid(3) assms(2) show ?thesis by auto
next
  case (restarted es1 sno st index w1 hst ents w3)
  from snapshot_events [OF restarted(1)] restarted(2) assms(2) show ?thesis by auto
qed

lemma init_node_id:
  assumes "startEtcd env fl w = (tr, r)" "startEtcd_validate env fl = Inr self"
    "EvRaftInit n \<in> set tr"
  shows "node_id n = ID self"
  using assms(1)
proof (cases rule: startEtcd_paths)
  case (invalid f)
  with assms show ?thesis by simp
next
  case (dirs self' f)
  from dirs_events [OF dirs(2)] assms(3) show ?thesis by auto
next
  case (fresh self' es1 fl1 snapdir waldir w1 es2 x2 es3)
  from dirs_events [OF fresh(2)] tail_events [OF fresh(6)] fresh(5) assms(3)
  have "EvRaftInit n \<in> set es2" by auto
  from fresh_node [OF fresh(4) this] fresh(1) assms(2) show ?thesis by auto
next
  case (restart self' es1 fl1 snapdir waldir w1 es2 x2 es3)
  from dirs_events [OF restart(2)] tail_events [OF restart(6)] restart(5) assms(3)
  have "EvRaftInit n \<in> set es2" by auto
  from restart_node [OF restart(4) this] restart(1) assms(2) show ?thesis by auto
qed

lemma invalid_run:
  assumes "startEtcd env fl w = (tr, r)" "startEtcd_validate env fl = Inl f"
  shows "tr = [] \<and> r = Inl f"
  using assms by (simp add: startEtcd_def)

lemma dirs_shape:
  assumes "startEtcd_dirs env fl self w = (es, x)"
  shows "\<exists>res rest.
      es = (if dir fl = []
            then [EvLogPrintf (''main: no data-dir is given, using default data-dir ./''
                               @ defaultDir self)]
            else [])
           @ EvMkdirAll (if dir fl = [] then defaultDir self else dir fl) privateDirMode res
           # rest
      \<and> (res \<noteq> None \<longrightarrow> rest = [] \<and> x = Inl (FatalDataDir (the res)))
      \<and> (res = None \<longrightarrow> (\<exists>res2. rest = [EvMkdirAll (path_Join env
              (if dir fl = [] then defaultDir self else dir fl) ''snap'') privateDirMode res2]
            \<and> (res2 \<noteq> None \<longrightarrow> x = Inl (FatalSnapDir (the res2)))
            \<and> (res2 = None \<longrightarrow> (\<exists>y. x = Inr y))))"
  using assms
  by (auto simp: startEtcd_dirs_def Let_def split: prod.splits option.splits if_splits)

lemma discovery_flags:
  assumes "startEtcd_discovery env fl self w = (es, Inr (fl1, w1))"
  shows "\<exists>c. fl1 = fl\<lparr>cluster := c\<rparr>"
  using assms
proof (cases rule: discovery_cases)
  case off
  then have "fl1 = fl\<lparr>cluster := cluster fl\<rparr>" by simp
  then show ?thesis ..
qed auto

lemma fresh_flags:
  assumes "startEtcd_fresh env fl self waldir w = (es, Inr (fl2, st, n, w2))"
  shows "(\<exists>c. fl2 = fl\<lparr>cluster := c\<rparr>) \<and> st = store_New env
    \<and> n = StartNode (ID self) (IDs (cluster fl2)) 10 1"
  using assms
proof (cases rule: fresh_cases)
  case (started es1 fl1 w1 w2')
  with discovery_flags [OF started(1)] show ?thesis by auto
qed auto

lemma restart_flags:
  assumes "startEtcd_restart env fl self snapdir waldir w = (es, Inr (fl2, st, n, w2))"
  shows "fl2 = fl"
  using assms by (cases rule: restart_cases) auto

lemma serve_flags:
  assumes "startEtcd_serve env fl snapdir waldir st n w = (es, Inr (fl', s, w'))"
  shows "fl' = fl \<and> Store s = st \<and> Node s = n \<and> ClusterStore s = (st, cluster fl)"
  using assms by (cases rule: serve_cases) (auto split: sum.splits)

lemma fresh_path [consumes 2, case_names fresh]:
  assumes "startEtcd env fl w = (tr, r)" and "EvWalExist p False \<in> set tr"
  obtains self es1 fl1 snapdir w1 es2 x2 es3 where
      "startEtcd_validate env fl = Inr self"
      "startEtcd_dirs env fl self w = (es1, Inr (fl1, snapdir, p, w1))"
      "\<not> wal_Exist env w1 p"
      "startEtcd_fresh env fl1 self p w1 = (es2, x2)"
      "tr = es1 @ EvWalExist p False # es2 @ es3"
      "case x2 of Inl f \<Rightarrow> es3 = [] \<and> r = Inl f
       | Inr (fl2, st, n, w2) \<Rightarrow> startEtcd_serve env fl2 snapdir p st n w2 = (es3, r)"
  using assms(1)
proof (cases rule: startEtcd_paths)
  case (invalid f)
  with assms(2) show ?thesis by simp
next
  case (dirs self f)
  from dirs_events [OF dirs(2)] assms(2) show ?thesis by auto
next
  case (fresh self es1 fl1 snapdir waldir w1 es2 x2 es3)
  from dirs_events [OF fresh(2)] fresh_events [OF fresh(4)] tail_events [OF fresh(6)]
    fresh(5) assms(2)
  have "waldir = p" by auto
  with fresh that show ?thesis by blast
next
  case (restart self es1 fl1 snapdir waldir w1 es2 x2 es3)
  from dirs_events [OF restart(2)] restart_events [OF restart(4)] tail_events [OF restart(6)]
    restart(5) assms(2)
  show ?thesis by auto
qed

lemma restart_path [consumes 2, case_names restart]:
  assumes "startEtcd env fl w = (tr, r)" and "EvWalExist p True \<in> set tr \<or> (\<exists>e\<in>set tr. is_restart e)"
  obtains self es1 fl1 snapdir waldir w1 es2 x2 es3 where
      "startEtcd_validate env fl = Inr self"
      "startEtcd_dirs env fl self w = (es1, Inr (fl1, snapdir, waldir, w1))"
      "wal_Exist env w1 waldir"
      "startEtcd_restart env fl1 self snapdir waldir w1 = (es2, x2)"
      "tr = es1 @ EvWalExist waldir True # es2 @ es3"
      "case x2 of Inl f \<Rightarrow> es3 = [] \<and> r = Inl f
       | Inr (fl2, st, n, w2) \<Rightarrow> startEtcd_serve env fl2 snapdir waldir st n w2 = (es3, r)"
      "filter is_restart tr = filter is_restart es2"
      "EvWalExist p True \<in> set tr \<longrightarrow> waldir = p"
  using assms(1)
proof (cases rule: startEtcd_paths)
  case (invalid f)
  with assms(2) show ?thesis by simp
next
  case (dirs self f)
  from dirs_events [OF dirs(2)] assms(2) show ?thesis by (auto dest: prepare_not)
next
  case (fresh self es1 fl1 snapdir waldir w1 es2 x2 es3)
  from dirs_events [OF fresh(2)] fresh_events [OF fresh(4)] tail_events [OF fresh(6)]
    fresh(5) assms(2)
  show ?thesis by (auto dest: prepare_not fresh_not compose_not)
next
  case (restart self es1 fl1 snapdir waldir w1 es2 x2 es3)
  note p1 = dirs_events [OF restart(2)]
  note p3 = tail_events [OF restart(6)]
  have "filter is_restart es1 = []" "filter is_restart es3 = []"
    using p1 p3 by (auto simp: filter_empty_conv dest: prepare_not compose_not)
  with restart(5) have f: "filter is_restart tr = filter is_restart es2" by simp
  from p1 restart_events [OF restart(4)] p3 restart(5)
  have "EvWalExist p True \<in> set tr \<longrightarrow> waldir = p" by auto
  with restart f that show ?thesis by blast
qed

lemma dirs_keeps:
  assumes "startEtcd_dirs env fl self w = (es, Inr (fl1, snapdir, waldir, w1))"
  shows "name fl1 = name fl \<and> durl fl1 = durl fl \<and> purls fl1 = purls fl
       \<and> cluster fl1 = cluster fl \<and> addrs fl1 = addrs fl"
  using dirs_result(1) [OF assms] by simp

lemma fresh_filter_fresh:
  assumes "startEtcd env fl w = (tr, r)" and "EvWalExist p False \<in> set tr"
  obtains self es1 fl1 snapdir w1 es2 x2 es3 where
      "startEtcd_validate env fl = Inr self"
      "startEtcd_dirs env fl self w = (es1, Inr (fl1, snapdir, p, w1))"
      "startEtcd_fresh env fl1 self p w1 = (es2, x2)"
      "tr = es1 @ EvWalExist p False # es2 @ es3"
      "case x2 of Inl f \<Rightarrow> es3 = [] \<and> r = Inl f
       | Inr (fl2, st, n, w2) \<Rightarrow> startEtcd_serve env fl2 snapdir p st n w2 = (es3, r)"
      "filter is_fresh tr = es2"
  using assms
proof (cases rule: fresh_path)
  case (fresh self es1 fl1 snapdir w1 es2 x2 es3)
  have "filter is_fresh es1 = []" "filter is_fresh es3 = []" "filter is_fresh es2 = es2"
    using dirs_events [OF fresh(2)] fresh_events [OF fresh(4)] tail_events [OF fresh(6)]
    by (auto simp: filter_empty_conv filter_id_conv dest: prepare_not compose_not)
  with fresh(5) have "filter is_fresh tr = es2" by simp
  with fresh that show ?thesis by blast
qed

lemma snapshot_fail:
  assumes "startEtcd_snapshot env snapdir w = (es, Inl f)"
  shows "\<exists>sno e. e \<noteq> ErrNoSnapshot \<and> es = [EvSnapLoad sno (Some e)] \<and> f = FatalSnapLoad e"
  using assms by (cases rule: snapshot_cases) auto

lemma snapshot_ok:
  assumes "startEtcd_snapshot env snapdir w = (es, Inr (sno, st, index, w1))"
  shows "\<exists>err res. (err = None \<or> err = Some ErrNoSnapshot)
      \<and> filter is_restart es =
          EvSnapLoad sno err # (case sno of None \<Rightarrow> [] | Some sn \<Rightarrow> [EvStoreRecovery (Data sn) res])
      \<and> index = (case sno of None \<Rightarrow> 0 | Some sn \<Rightarrow> Index sn)
      \<and> (case sno of None \<Rightarrow> st = store_New env
          | Some sn \<Rightarrow> store_Recovery env (store_New env) (Data sn) = (res, st))"
  using assms
proof (cases rule: snapshot_cases)
  case (nosnap err w1')
  then show ?thesis by simp
next
  case (snap err sn res st1 w1')
  then have "(err = None \<or> err = Some ErrNoSnapshot)
      \<and> filter is_restart es =
          EvSnapLoad sno err # (case sno of None \<Rightarrow> [] | Some sn \<Rightarrow> [EvStoreRecovery (Data sn) res])
      \<and> index = (case sno of None \<Rightarrow> 0 | Some sn \<Rightarrow> Index sn)
      \<and> (case sno of None \<Rightarrow> st = store_New env
          | Some sn \<Rightarrow> store_Recovery env (store_New env) (Data sn) = (res, st))"
    by simp
  then show ?thesis by blast
qed simp

lemma serveAll_fatal:
  "serveAll env tls h as w = (es, Inl f) \<Longrightarrow> \<exists>e. f = FatalListener e"
proof (induction as arbitrary: w es)
  case Nil
  then show ?case by simp
next
  case (Cons a as)
  show ?case
  proof (cases "NewListener env w a tls")
    case (Pair res w1)
    show ?thesis
    proof (cases res)
      case None
      obtain es' x' where r: "serveAll env tls h as w1 = (es', x')" by force
      with Cons.prems Pair None have "x' = Inl f" by simp
      with Cons.IH r show ?thesis by blast
    next
      case (Some e)
      with Cons.prems Pair show ?thesis by auto
    qed
  qed
qed

lemma serve_fatal:
  assumes "startEtcd_serve env fl snapdir waldir st n w = (es, Inl f)"
  shows "\<exists>e. f = FatalTransport e \<or> f = FatalListener e"
  using assms
proof (cases rule: serve_cases)
  case (clients w2 es' y)
  then obtain f' where y: "y = Inl f'" and f: "f = f'" by (cases y) auto
  from clients(1) y have "serveAll env (clientTLSInfo fl)
      (CORSHandler (ClientHandler (timeout fl)) (cors fl)) (addrs fl) w2 = (es', Inl f')"
    by simp
  from serveAll_fatal [OF this] f show ?thesis by blast
qed auto

lemma init_kind: "is_init e \<Longrightarrow> is_fresh e \<or> is_restart e"
  by (cases e rule: is_fresh.cases) auto

lemma restart_run [consumes 2, case_names loadfail openfail readfail badid restarted]:
  assumes "startEtcd env fl w = (tr, r)"
    and "EvWalExist p True \<in> set tr \<or> (\<exists>e\<in>set tr. is_restart e)"
  obtains
    (loadfail) self sno e where "startEtcd_validate env fl = Inr self" "e \<noteq> ErrNoSnapshot"
      "filter is_restart tr = [EvSnapLoad sno (Some e)]" "r = Inl (FatalSnapLoad e)"
      "last tr = EvSnapLoad sno (Some e)" "filter is_fresh tr = []" "filter is_compose tr = []"
  | (openfail) self waldir sno err res e where "startEtcd_validate env fl = Inr self"
      "err = None \<or> err = Some ErrNoSnapshot"
      "filter is_restart tr =
         EvSnapLoad sno err # (case sno of None \<Rightarrow> [] | Some sn \<Rightarrow> [EvStoreRecovery (Data sn) res])
         @ [EvWalOpenAtIndex waldir (case sno of None \<Rightarrow> 0 | Some sn \<Rightarrow> Index sn) (Some e)]"
      "r = Inl (FatalWalOpen e)" "filter is_fresh tr = []" "filter is_compose tr = []"
  | (readfail) self waldir sno err res e where "startEtcd_validate env fl = Inr self"
      "err = None \<or> err = Some ErrNoSnapshot"
      "filter is_restart tr =
         EvSnapLoad sno err # (case sno of None \<Rightarrow> [] | Some sn \<Rightarrow> [EvStoreRecovery (Data sn) res])
         @ [EvWalOpenAtIndex waldir (case sno of None \<Rightarrow> 0 | Some sn \<Rightarrow> Index sn) None,
            EvWalReadAll (Inl e)]"
      "r = Inl (FatalWalReadAll e)" "filter is_fresh tr = []" "filter is_compose tr = []"
  | (badid) self waldir sno err res wid hst ents where "startEtcd_validate env fl = Inr self"
      "err = None \<or> err = Some ErrNoSnapshot" "wid \<noteq> 0"
      "filter is_restart tr =
         EvSnapLoad sno err # (case sno of None \<Rightarrow> [] | Some sn \<Rightarrow> [EvStoreRecovery (Data sn) res])
         @ [EvWalOpenAtIndex waldir (case sno of None \<Rightarrow> 0 | Some sn \<Rightarrow> Index sn) None,
            EvWalReadAll (Inr (wid, hst, ents))]"
      "r = Inl (FatalUnexpectedNodeID wid)" "last tr = EvWalReadAll (Inr (wid, hst, ents))"
      "filter is_fresh tr = []" "filter is_compose tr = []"
  | (restarted) self waldir sno err res hst ents st where "startEtcd_validate env fl = Inr self"
      "err = None \<or> err = Some ErrNoSnapshot"
      "filter is_restart tr =
         EvSnapLoad sno err # (case sno of None \<Rightarrow> [] | Some sn \<Rightarrow> [EvStoreRecovery (Data sn) res])
         @ [EvWalOpenAtIndex waldir (case sno of None \<Rightarrow> 0 | Some sn \<Rightarrow> Index sn) None,
            EvWalReadAll (Inr (0, hst, ents)),
            EvRaftInit (RestartNode (ID self) (IDs (cluster fl)) 10 1 sno hst ents)]"
      "case sno of None \<Rightarrow> st = store_New env
       | Some sn \<Rightarrow> store_Recovery env (store_New env) (Data sn) = (res, st)"
      "\<forall>fl' s w'. r = Inr (fl', s, w') \<longrightarrow>
         Node s = RestartNode (ID self) (IDs (cluster fl)) 10 1 sno hst ents
         \<and> Store s = st \<and> cluster fl' = cluster fl"
      "\<forall>f. r = Inl f \<longrightarrow> (\<exists>e. f = FatalTransport e \<or> f = FatalListener e)"
      "filter is_fresh tr = []"
  using assms
proof (cases rule: restart_path)
  case (restart self es1 fl1 snapdir waldir w1 es2 x2 es3)
  note k = dirs_keeps [OF restart(2)]
  note p1 = dirs_events [OF restart(2)]
  note p2 = restart_events [OF restart(4)]
  note p3 = tail_events [OF restart(6)]
  have fr: "filter is_fresh tr = []"
    using p1 p2 p3 restart(5)
    by (auto simp: filter_empty_conv dest: prepare_not restart_not compose_not)
  have co12: "filter is_compose es1 = []" "filter is_compose es2 = []"
    using p1 p2 by (auto simp: filter_empty_conv dest: prepare_not restart_not)
  have failc: "filter is_compose tr = []" and failr: "r = Inl f"
    and failt: "tr = es1 @ EvWalExist waldir True # es2" if "x2 = Inl f" for f
    using that restart(5,6) co12 by simp_all
  from restart(4) show ?thesis
  proof (cases rule: restart_cases)
    case (snapfail f)
    from snapshot_fail [OF snapfail(1)] obtain sno e where
      e: "e \<noteq> ErrNoSnapshot" "es2 = [EvSnapLoad sno (Some e)]" "f = FatalSnapLoad e" by blast
    from e restart(7) have a: "filter is_restart tr = [EvSnapLoad sno (Some e)]" by simp
    from failr [OF snapfail(2)] e have b: "r = Inl (FatalSnapLoad e)" by simp
    from failt [OF snapfail(2)] e have c: "last tr = EvSnapLoad sno (Some e)" by simp
    from restart(1) e(1) a b c fr failc [OF snapfail(2)] show ?thesis by (rule loadfail)
  next
    case (openfail es0 sno st index w0 e)
    from snapshot_ok [OF openfail(1)] obtain err res where
      s: "err = None \<or> err = Some ErrNoSnapshot"
        "filter is_restart es0 =
          EvSnapLoad sno err # (case sno of None \<Rightarrow> [] | Some sn \<Rightarrow> [EvStoreRecovery (Data sn) res])"
        "index = (case sno of None \<Rightarrow> 0 | Some sn \<Rightarrow> Index sn)" by blast
    from s openfail(2) restart(7)
    have a: "filter is_restart tr =
         EvSnapLoad sno err # (case sno of None \<Rightarrow> [] | Some sn \<Rightarrow> [EvStoreRecovery (Data sn) res])
         @ [EvWalOpenAtIndex waldir (case sno of None \<Rightarrow> 0 | Some sn \<Rightarrow> Index sn) (Some e)]"
      by simp
    from restart(1) s(1) a failr [OF openfail(3)] fr failc [OF openfail(3)]
    show ?thesis by (rule that(2))
  next
    case (readfail es0 sno st index w0 e)
    from snapshot_ok [OF readfail(1)] obtain err res where
      s: "err = None \<or> err = Some ErrNoSnapshot"
        "filter is_restart es0 =
          EvSnapLoad sno err # (case sno of None \<Rightarrow> [] | Some sn \<Rightarrow> [EvStoreRecovery (Data sn) res])"
        "index = (case sno of None \<Rightarrow> 0 | Some sn \<Rightarrow> Index sn)" by blast
    from s readfail(2) restart(7)
    have a: "filter is_restart tr =
         EvSnapLoad sno err # (case sno of None \<Rightarrow> [] | Some sn \<Rightarrow> [EvStoreRecovery (Data sn) res])
         @ [EvWalOpenAtIndex waldir (case sno of None \<Rightarrow> 0 | Some sn \<Rightarrow> Index sn) None,
            EvWalReadAll (Inl e)]"
      by simp
    from restart(1) s(1) a failr [OF readfail(3)] fr failc [OF readfail(3)]
    show ?thesis by (rule that(3))
  next
    case (badid es0 sno st index w0 wid hst ents)
    from snapshot_ok [OF badid(1)] obtain err res where
      s: "err = None \<or> err = Some ErrNoSnapshot"
        "filter is_restart es0 =
          EvSnapLoad sno err # (case sno of None \<Rightarrow> [] | Some sn \<Rightarrow> [EvStoreRecovery (Data sn) res])"
        "index = (case sno of None \<Rightarrow> 0 | Some sn \<Rightarrow> Index sn)" by blast
    from s badid(3) restart(7)
    have a: "filter is_restart tr =
         EvSnapLoad sno err # (case sno of None \<Rightarrow> [] | Some sn \<Rightarrow> [EvStoreRecovery (Data sn) res])
         @ [EvWalOpenAtIndex waldir (case sno of None \<Rightarrow> 0 | Some sn \<Rightarrow> Index sn) None,
            EvWalReadAll (Inr (wid, hst, ents))]"
      by simp
    from failt [OF badid(4)] badid(3)
    have c: "last tr = EvWalReadAll (Inr (wid, hst, ents))" by simp
    from restart(1) s(1) badid(2) a failr [OF badid(4)] c fr failc [OF badid(4)]
    show ?thesis by (rule that(4))
  next
    case (restarted es0 sno st index w0 hst ents w3)
    from snapshot_ok [OF restarted(1)] obtain err res where
      s: "err = None \<or> err = Some ErrNoSnapshot"
        "filter is_restart es0 =
          EvSnapLoad sno err # (case sno of None \<Rightarrow> [] | Some sn \<Rightarrow> [EvStoreRecovery (Data sn) res])"
        "index = (case sno of None \<Rightarrow> 0 | Some sn \<Rightarrow> Index sn)"
        "case sno of None \<Rightarrow> st = store_New env
         | Some sn \<Rightarrow> store_Recovery env (store_New env) (Data sn) = (res, st)" by blast
    from s restarted(2) restart(7) k
    have a: "filter is_restart tr =
         EvSnapLoad sno err # (case sno of None \<Rightarrow> [] | Some sn \<Rightarrow> [EvStoreRecovery (Data sn) res])
         @ [EvWalOpenAtIndex waldir (case sno of None \<Rightarrow> 0 | Some sn \<Rightarrow> Index sn) None,
            EvWalReadAll (Inr (0, hst, ents)),
            EvRaftInit (RestartNode (ID self) (IDs (cluster fl)) 10 1 sno hst ents)]"
      by simp
    from restart(6) restarted(3)
    have sv: "startEtcd_serve env fl1 snapdir waldir st
        (RestartNode (ID self) (IDs (cluster fl1)) 10 1 sno hst ents) w3 = (es3, r)" by simp
    have b: "\<forall>fl' s w'. r = Inr (fl', s, w') \<longrightarrow>
         Node s = RestartNode (ID self) (IDs (cluster fl)) 10 1 sno hst ents
         \<and> Store s = st \<and> cluster fl' = cluster fl"
    proof (intro allI impI)
      fix fl' s w' assume "r = Inr (fl', s, w')"
      from serve_flags [OF sv [unfolded this]] k
      show "Node s = RestartNode (ID self) (IDs (cluster fl)) 10 1 sno hst ents
         \<and> Store s = st \<and> cluster fl' = cluster fl" by simp
    qed
    have c: "\<forall>f. r = Inl f \<longrightarrow> (\<exists>e. f = FatalTransport e \<or> f = FatalListener e)"
    proof (intro allI impI)
      fix f assume "r = Inl f"
      from serve_fatal [OF sv [unfolded this]]
      show "\<exists>e. f = FatalTransport e \<or> f = FatalListener e" .
    qed
    from restart(1) s(1) a s(4) b c fr show ?thesis by (rule that(5))
  qed
qed

lemma restart_member: "e \<in> set tr \<Longrightarrow> is_restart e \<Longrightarrow> e \<in> set (filter is_restart tr)"
  by simp

lemma init_via_restart:
  assumes "filter is_fresh tr = []"
  shows "filter is_init tr = filter is_init (filter is_restart tr)"
proof -
  from assms have "\<forall>x\<in>set tr. \<not> is_fresh x" by (simp add: filter_empty_conv)
  then have "filter (\<lambda>x. is_restart x \<and> is_init x) tr = filter is_init tr"
    by (intro filter_cong) (auto dest: init_kind)
  then show ?thesis by simp
qed

lemma dirs_ok_shape:
  assumes "startEtcd_dirs env fl self w = (es, Inr y)"
  shows "\<exists>pre d s. es = pre @ [EvMkdirAll d privateDirMode None, EvMkdirAll s privateDirMode None]
           \<and> (pre = [] \<or> (\<exists>msg. pre = [EvLogPrintf msg]))"
  using assms
  by (auto simp: startEtcd_dirs_def Let_def split: prod.splits option.splits if_splits)

lemma serve_launched:
  assumes "startEtcd_serve env fl snapdir waldir st n w = (es, Inr y)"
  shows "es \<noteq> [] \<and> is_go (last es) \<and> length (filter is_go es) = Suc (length (addrs fl))"
  using assms
proof (cases rule: serve_cases)
  case (clients w2 es' y')
  then obtain w3 where y': "y' = Inr w3" by (cases y') auto
  note l = serveAll_launched [OF clients(1) [unfolded y']]
  show ?thesis
  proof (cases "addrs fl = []")
    case True
    with clients(1) have "es' = []" by simp
    with clients(2) True show ?thesis by simp
  next
    case False
    with l clients(2) show ?thesis by simp
  qed
qed auto

lemma serve_endpoint:
  assumes "startEtcd_serve env fl snapdir waldir st n w = (es, x)"
    and "es = pre @ e # post" and "is_endpoint e"
  shows "EvServerStart \<in> set pre"
  using assms(1)
proof (cases rule: serve_cases)
  case (transportfail e')
  with assms(2,3) have "e \<in> set [EvNewTransport (peerTLSInfo fl) (Some e')]"
    by (metis in_set_conv_decomp)
  with assms(3) show ?thesis by simp
next
  case (peerfail e')
  then have "[EvNewTransport (peerTLSInfo fl) None, EvServerStart]
      @ [EvNewListener (paddr fl) (peerTLSInfo fl) (Some e')] = pre @ e # post"
    using assms(2) by simp
  from split_after [OF this, of is_endpoint] assms(3) show ?thesis by auto
next
  case (clients w2 es' y)
  then have "[EvNewTransport (peerTLSInfo fl) None, EvServerStart]
      @ (EvNewListener (paddr fl) (peerTLSInfo fl) None # EvGoServe (paddr fl) PeerHandler # es')
      = pre @ e # post"
    using assms(2) by simp
  from split_after [OF this, of is_endpoint] assms(3) show ?thesis by auto
qed

lemma filter_single_mem: "filter P xs = [a] \<Longrightarrow> a \<in> set xs"
proof -
  assume "filter P xs = [a]"
  then have "a \<in> set (filter P xs)" by simp
  then show ?thesis by simp
qed

lemma startEtcd_endpoint:
  assumes "startEtcd env fl w = (tr, r)" and "tr = pre @ e # post" and "is_endpoint e"
  shows "(\<exists>n. EvRaftInit n \<in> set pre) \<and> (\<exists>p b. EvWalExist p b \<in> set pre)
       \<and> EvServerStart \<in> set pre \<and> (\<forall>x\<in>set post. is_compose x)"
  using assms(1)
proof (cases rule: startEtcd_paths)
  case (invalid f)
  with assms(2) show ?thesis by simp
next
  case (dirs self f)
  from assms(2) have "e \<in> set tr" by simp
  with dirs_events [OF dirs(2)] assms(3) show ?thesis by (auto dest: prepare_not)
next
  case (fresh self es1 fl1 snapdir waldir w1 es2 x2 es3)
  have no: "\<forall>x\<in>set (es1 @ EvWalExist waldir False # es2). \<not> is_endpoint x"
    using dirs_events [OF fresh(2)] fresh_events [OF fresh(4)]
    by (auto dest: prepare_not fresh_not)
  from fresh(5) assms(2) have "(es1 @ EvWalExist waldir False # es2) @ es3 = pre @ e # post"
    by simp
  from split_after [OF this no assms(3)] obtain pre' where
    pre: "pre = (es1 @ EvWalExist waldir False # es2) @ pre'" and es3: "es3 = pre' @ e # post"
    by blast
  from es3 fresh(6) obtain fl2 st n w2 where x2: "x2 = Inr (fl2, st, n, w2)"
    and sv: "startEtcd_serve env fl2 snapdir waldir st n w2 = (es3, r)"
    by (cases x2) auto
  from fresh_init [OF fresh(4)] x2 have "EvRaftInit n \<in> set es2"
    by (auto intro: filter_single_mem)
  moreover from serve_endpoint [OF sv es3 assms(3)] have "EvServerStart \<in> set pre'" .
  moreover from serve_events [OF sv] es3 have "\<forall>x\<in>set post. is_compose x" by simp
  ultimately show ?thesis using pre by auto
next
  case (restart self es1 fl1 snapdir waldir w1 es2 x2 es3)
  have no: "\<forall>x\<in>set (es1 @ EvWalExist waldir True # es2). \<not> is_endpoint x"
    using dirs_events [OF restart(2)] restart_events [OF restart(4)]
    by (auto dest: prepare_not restart_not)
  from restart(5) assms(2) have "(es1 @ EvWalExist waldir True # es2) @ es3 = pre @ e # post"
    by simp
  from split_after [OF this no assms(3)] obtain pre' where
    pre: "pre = (es1 @ EvWalExist waldir True # es2) @ pre'" and es3: "es3 = pre' @ e # post"
    by blast
  from es3 restart(6) obtain fl2 st n w2 where x2: "x2 = Inr (fl2, st, n, w2)"
    and sv: "startEtcd_serve env fl2 snapdir waldir st n w2 = (es3, r)"
    by (cases x2) auto
  from restart_init [OF restart(4)] x2 have "EvRaftInit n \<in> set es2"
    by (auto intro: filter_single_mem)
  moreover from serve_endpoint [OF sv es3 assms(3)] have "EvServerStart \<in> set pre'" .
  moreover from serve_events [OF sv] es3 have "\<forall>x\<in>set post. is_compose x" by simp
  ultimately show ?thesis using pre by auto
qed

lemma startEtcd_launched:
  assumes "startEtcd env fl w = (tr, Inr y)"
  shows "tr \<noteq> [] \<and> is_go (last tr) \<and> length (filter is_go tr) = Suc (length (addrs fl))"
  using assms
proof (cases rule: startEtcd_paths)
  case (fresh self es1 fl1 snapdir waldir w1 es2 x2 es3)
  from fresh(6) obtain fl2 st n w2 where x2: "x2 = Inr (fl2, st, n, w2)"
    and sv: "startEtcd_serve env fl2 snapdir waldir st n w2 = (es3, Inr y)"
    by (cases x2) auto
  from fresh_flags [OF fresh(4) [unfolded x2]] dirs_keeps [OF fresh(2)]
  have a: "addrs fl2 = addrs fl" by auto
  have "filter is_go es1 = []" "filter is_go es2 = []"
    using dirs_events [OF fresh(2)] fresh_events [OF fresh(4)]
    by (auto simp: filter_empty_conv dest: prepare_not fresh_not)
  with serve_launched [OF sv] a fresh(5) show ?thesis by simp
next
  case (restart self es1 fl1 snapdir waldir w1 es2 x2 es3)
  from restart(6) obtain fl2 st n w2 where x2: "x2 = Inr (fl2, st, n, w2)"
    and sv: "startEtcd_serve env fl2 snapdir waldir st n w2 = (es3, Inr y)"
    by (cases x2) auto
  from restart_flags [OF restart(4) [unfolded x2]] dirs_keeps [OF restart(2)]
  have a: "addrs fl2 = addrs fl" by auto
  have "filter is_go es1 = []" "filter is_go es2 = []"
    using dirs_events [OF restart(2)] restart_events [OF restart(4)]
    by (auto simp: filter_empty_conv dest: prepare_not restart_not)
  with serve_launched [OF sv] a restart(5) show ?thesis by simp
qed simp_all

section \<open>The scenarios, run\<close>

lemmas sim_eval = startEtcd_def startEtcd_validate_def FindName_def defaultFlags_def sim_def
  emptyDisk_def andThen_def startEtcd_dirs_def defaultDir_def Sprintf_int64_def showInt_def
  showNat.simps privateDirMode_def startEtcd_bootstrap_def startEtcd_fresh_def
  startEtcd_discovery_def IDs_def startEtcd_serve_def noTLS_def startEtcd_restart_def
  startEtcd_snapshot_def flagsDiscovery_def flagsNoPurls_def discovered_def diskDiscovery_def
  snapshot5_def diskSnap5_def diskNoSnap_def diskSnapErr_def diskBadId_def diskBadPayload_def
  entryAt_def hardState1_def Let_def flagsNobody_def flagsNoneID_def flagsSnapCount0_def

lemma sim_fields:
  "SetFlagsFromEnv sim w fl = fl" "ProxyValueOff sim = ''off''" "raft_None sim = 0"
  "store_New sim = []"
  by (simp_all add: sim_def)

lemma defaultFlags_fields:
  "printVersion defaultFlags = False" "proxyFlag defaultFlags = ''off''"
  "addrs defaultFlags = [''127.0.0.1:4001'']" "dir defaultFlags = []"
  "name defaultFlags = ''default''"
  "cluster defaultFlags = [\<lparr>Name = ''default'', ID = 1, PeerURL = ''localhost:8080''\<rparr>]"
  by (simp_all add: defaultFlags_def)

lemma scenario_fields:
  "durl flagsDiscovery = ''http://disc/t''" "purls flagsDiscovery = ''http://10.0.0.1:7001''"
  "name flagsDiscovery = ''default''"
  "durl flagsNoPurls = ''http://disc/t''" "purls flagsNoPurls = []"
  "name flagsNobody = ''nobody''" "cluster flagsNobody = cluster defaultFlags"
  "name flagsNoneID = ''default''"
  "cluster flagsNoneID = [\<lparr>Name = ''default'', ID = 0, PeerURL = ''localhost:8080''\<rparr>]"
  "name flagsSnapCount0 = ''default''" "cluster flagsSnapCount0 = cluster defaultFlags"
  "snapCount flagsSnapCount0 = 0"
  by (simp_all add: flagsDiscovery_def flagsNoPurls_def flagsNobody_def flagsNoneID_def
        flagsSnapCount0_def defaultFlags_def)

lemma validate_default:
  "startEtcd_validate sim defaultFlags
     = Inr \<lparr>Name = ''default'', ID = 1, PeerURL = ''localhost:8080''\<rparr>"
  by (simp add: startEtcd_validate_def FindName_def defaultFlags_def sim_def)

lemma run_fresh:
  "startEtcd sim defaultFlags emptyDisk =
    ([EvLogPrintf ''main: no data-dir is given, using default data-dir ./1_etcd_data'',
      EvMkdirAll ''1_etcd_data'' 448 None,
      EvMkdirAll ''1_etcd_data/snap'' 448 None,
      EvWalExist ''1_etcd_data/wal'' False,
      EvWalCreate ''1_etcd_data/wal'' None,
      EvRaftInit (StartNode 1 [1] 10 1),
      EvNewTransport noTLS None,
      EvServerStart,
      EvNewListener '':7001'' noTLS None,
      EvGoServe '':7001'' PeerHandler,
      EvNewListener ''127.0.0.1:4001'' noTLS None,
      EvGoServe ''127.0.0.1:4001'' (CORSHandler (ClientHandler 10000000000) [])],
     Inr (defaultFlags\<lparr>dir := ''1_etcd_data''\<rparr>,
          \<lparr>Store = [], Node = StartNode 1 [1] 10 1,
             Storage = (''1_etcd_data/wal'', ''1_etcd_data/snap''),
             Send = (noTLS, [], cluster defaultFlags), Ticker = 100, SyncTicker = 500,
             SnapCount = 10000, ClusterStore = ([], cluster defaultFlags)\<rparr>,
          emptyDisk\<lparr>sw_dirs := [''1_etcd_data/snap'', ''1_etcd_data''],
                     sw_wal := Some (0, \<lparr>hs_Term = 0, hs_Vote = 0, hs_Commit = 0\<rparr>, []),
                     sw_bound := [''127.0.0.1:4001'', '':7001'']\<rparr>))"
  by (simp add: sim_eval)

lemma run_main:
  "main sim defaultFlags emptyDisk =
    ([EvSetFlagsFromEnv,
      EvLogPrintf ''main: no data-dir is given, using default data-dir ./1_etcd_data'',
      EvMkdirAll ''1_etcd_data'' 448 None,
      EvMkdirAll ''1_etcd_data/snap'' 448 None,
      EvWalExist ''1_etcd_data/wal'' False,
      EvWalCreate ''1_etcd_data/wal'' None,
      EvRaftInit (StartNode 1 [1] 10 1),
      EvNewTransport noTLS None,
      EvServerStart,
      EvNewListener '':7001'' noTLS None,
      EvGoServe '':7001'' PeerHandler,
      EvNewListener ''127.0.0.1:4001'' noTLS None,
      EvGoServe ''127.0.0.1:4001'' (CORSHandler (ClientHandler 10000000000) [])],
     BlockedForever)"
  by (simp add: main_def sim_fields defaultFlags_fields run_fresh)

lemma run_nopurls:
  "startEtcd sim flagsNoPurls emptyDisk =
    ([EvLogPrintf ''main: no data-dir is given, using default data-dir ./1_etcd_data'',
      EvMkdirAll ''1_etcd_data'' 448 None,
      EvMkdirAll ''1_etcd_data/snap'' 448 None,
      EvWalExist ''1_etcd_data/wal'' False],
     Inl FatalDiscoveryRequiresPurls)"
  by (simp add: sim_eval)

lemma run_nopurls_restart:
  "fst (startEtcd sim flagsNoPurls diskNoSnap) =
    [EvLogPrintf ''main: no data-dir is given, using default data-dir ./1_etcd_data'',
     EvMkdirAll ''1_etcd_data'' 448 None,
     EvMkdirAll ''1_etcd_data/snap'' 448 None,
     EvWalExist ''1_etcd_data/wal'' True,
     EvSnapLoad None (Some ErrNoSnapshot),
     EvWalOpenAtIndex ''1_etcd_data/wal'' 0 None,
     EvWalReadAll (Inr (0, hardState1, [entryAt 1, entryAt 2])),
     EvRaftInit (RestartNode 1 [1] 10 1 None hardState1 [entryAt 1, entryAt 2]),
     EvNewTransport noTLS None,
     EvServerStart,
     EvNewListener '':7001'' noTLS None,
     EvGoServe '':7001'' PeerHandler,
     EvNewListener ''127.0.0.1:4001'' noTLS None,
     EvGoServe ''127.0.0.1:4001'' (CORSHandler (ClientHandler 10000000000) [])]"
  by (simp add: sim_eval)

lemma run_discovery:
  "fst (startEtcd sim flagsDiscovery diskDiscovery) =
    [EvLogPrintf ''main: no data-dir is given, using default data-dir ./1_etcd_data'',
     EvMkdirAll ''1_etcd_data'' 448 None,
     EvMkdirAll ''1_etcd_data/snap'' 448 None,
     EvWalExist ''1_etcd_data/wal'' False,
     EvDiscoveryNew ''http://disc/t'' 1 ''default=http://10.0.0.1:7001'' None,
     EvDiscover (Inr discovered),
     EvWalCreate ''1_etcd_data/wal'' None,
     EvRaftInit (StartNode 1 [1, 2, 3] 10 1),
     EvNewTransport noTLS None,
     EvServerStart,
     EvNewListener '':7001'' noTLS None,
     EvGoServe '':7001'' PeerHandler,
     EvNewListener ''127.0.0.1:4001'' noTLS None,
     EvGoServe ''127.0.0.1:4001'' (CORSHandler (ClientHandler 10000000000) [])]"
  by (simp add: sim_eval)

lemma run_discovery_ok:
  "\<exists>fl' s w'. snd (startEtcd sim flagsDiscovery diskDiscovery) = Inr (fl', s, w')
     \<and> Node s = StartNode 1 [1, 2, 3] 10 1 \<and> cluster fl' = discovered"
  by (simp add: sim_eval)


lemma run_snap5_ok:
  "\<exists>fl' s w'. snd (startEtcd sim defaultFlags diskSnap5) = Inr (fl', s, w')
     \<and> Node s = RestartNode 1 [1] 10 1 (Some snapshot5) hardState1
                  [entryAt 5, entryAt 6, entryAt 7, entryAt 8]
     \<and> cluster fl' = cluster defaultFlags"
  by (simp add: sim_eval)

lemma run_nosnap:
  "fst (startEtcd sim defaultFlags diskNoSnap) =
    [EvLogPrintf ''main: no data-dir is given, using default data-dir ./1_etcd_data'',
     EvMkdirAll ''1_etcd_data'' 448 None,
     EvMkdirAll ''1_etcd_data/snap'' 448 None,
     EvWalExist ''1_etcd_data/wal'' True,
     EvSnapLoad None (Some ErrNoSnapshot),
     EvWalOpenAtIndex ''1_etcd_data/wal'' 0 None,
     EvWalReadAll (Inr (0, hardState1, [entryAt 1, entryAt 2])),
     EvRaftInit (RestartNode 1 [1] 10 1 None hardState1 [entryAt 1, entryAt 2]),
     EvNewTransport noTLS None,
     EvServerStart,
     EvNewListener '':7001'' noTLS None,
     EvGoServe '':7001'' PeerHandler,
     EvNewListener ''127.0.0.1:4001'' noTLS None,
     EvGoServe ''127.0.0.1:4001'' (CORSHandler (ClientHandler 10000000000) [])]"
  by (simp add: sim_eval)

lemma run_nosnap_ok:
  "\<exists>fl' s w'. snd (startEtcd sim defaultFlags diskNoSnap) = Inr (fl', s, w') \<and> Store s = []"
  by (simp add: sim_eval)

lemma run_snaperr:
  "startEtcd sim defaultFlags diskSnapErr =
    ([EvLogPrintf ''main: no data-dir is given, using default data-dir ./1_etcd_data'',
      EvMkdirAll ''1_etcd_data'' 448 None,
      EvMkdirAll ''1_etcd_data/snap'' 448 None,
      EvWalExist ''1_etcd_data/wal'' True,
      EvSnapLoad None (Some (Err ''crc mismatch''))],
     Inl (FatalSnapLoad (Err ''crc mismatch'')))"
  by (simp add: sim_eval)

lemma run_badid:
  "startEtcd sim defaultFlags diskBadId =
    ([EvLogPrintf ''main: no data-dir is given, using default data-dir ./1_etcd_data'',
      EvMkdirAll ''1_etcd_data'' 448 None,
      EvMkdirAll ''1_etcd_data/snap'' 448 None,
      EvWalExist ''1_etcd_data/wal'' True,
      EvSnapLoad None (Some ErrNoSnapshot),
      EvWalOpenAtIndex ''1_etcd_data/wal'' 0 None,
      EvWalReadAll (Inr (7, hardState1, [entryAt 1, entryAt 2]))],
     Inl (FatalUnexpectedNodeID 7))"
  by (simp add: sim_eval)

lemma run_badpayload:
  "fst (startEtcd sim defaultFlags diskBadPayload) =
    [EvLogPrintf ''main: no data-dir is given, using default data-dir ./1_etcd_data'',
     EvMkdirAll ''1_etcd_data'' 448 None,
     EvMkdirAll ''1_etcd_data/snap'' 448 None,
     EvWalExist ''1_etcd_data/wal'' True,
     EvSnapLoad (Some \<lparr>Index = 5, Data = []\<rparr>) None,
     EvLogPrintf ''etcd: restart from snapshot at index 5'',
     EvStoreRecovery [] (Some (Err ''cannot decode'')),
     EvWalOpenAtIndex ''1_etcd_data/wal'' 5 None,
     EvWalReadAll (Inr (0, hardState1, [entryAt 5, entryAt 6])),
     EvRaftInit (RestartNode 1 [1] 10 1 (Some \<lparr>Index = 5, Data = []\<rparr>) hardState1
                   [entryAt 5, entryAt 6]),
     EvNewTransport noTLS None,
     EvServerStart,
     EvNewListener '':7001'' noTLS None,
     EvGoServe '':7001'' PeerHandler,
     EvNewListener ''127.0.0.1:4001'' noTLS None,
     EvGoServe ''127.0.0.1:4001'' (CORSHandler (ClientHandler 10000000000) [])]"
  by (simp add: sim_eval)

lemma run_badpayload_ok:
  "\<exists>y. snd (startEtcd sim defaultFlags diskBadPayload) = Inr y"
  by (simp add: sim_eval)

lemma run_unknown_name:
  "startEtcd sim flagsNobody emptyDisk = ([], Inl (FatalNoMember ''nobody''))"
  by (simp add: sim_eval)

lemma run_none_id:
  "startEtcd sim flagsNoneID emptyDisk = ([], Inl (FatalNoneID 0))"
  by (simp add: sim_eval)

lemma run_snapcount:
  "startEtcd sim flagsSnapCount0 emptyDisk = ([], Inl (FatalSnapCount 0))"
  by (simp add: sim_eval)





section \<open>The claims\<close>

subsection \<open>C1: the WAL directory decides the path\<close>



subsection \<open>C2: what the restart initialisation receives\<close>




subsection \<open>C3: discovery on the fresh path\<close>

text \<open>
  Claim C3. In a run on the fresh path (\<open>wal.Exist\<close> returned false) with
  \<open>-discovery\<close> set: when \<open>-advertised-peer-urls\<close> is empty the run ends in the fatal
  error "discovery requires advertised-peer-urls" without any call of the fresh branch;
  otherwise \<open>discovery.New\<close> is called exactly once, with the discovery URL, this node's
  ID and \<open>name=purls\<close>, then \<open>Discover\<close> at most once, and \<open>wal.Create\<close> is called
  only after \<open>Discover\<close> has returned a cluster \<open>c\<close>; \<open>raft.StartNode\<close> then
  receives the IDs of \<open>c\<close>, and the node and the cluster variable of a run that returns
  are those. A failure of either discovery call is fatal.
\<close>

theorem C3_discovery_before_log:
  assumes "startEtcd env fl w = (tr, r)" and "EvWalExist p False \<in> set tr"
    and "durl fl \<noteq> []"
  shows "(purls fl = [] \<longrightarrow> r = Inl FatalDiscoveryRequiresPurls \<and> filter is_fresh tr = [])
       \<and> (purls fl \<noteq> [] \<longrightarrow> (\<exists>self. startEtcd_validate env fl = Inr self \<and>
            ((\<exists>e. filter is_fresh tr =
                    [EvDiscoveryNew (durl fl) (ID self) (name fl @ ''='' @ purls fl) (Some e)]
                  \<and> r = Inl (FatalDiscoveryInit e))
           \<or> (\<exists>e. filter is_fresh tr =
                    [EvDiscoveryNew (durl fl) (ID self) (name fl @ ''='' @ purls fl) None,
                     EvDiscover (Inl e)]
                  \<and> r = Inl (FatalDiscover e))
           \<or> (\<exists>c e. filter is_fresh tr =
                    [EvDiscoveryNew (durl fl) (ID self) (name fl @ ''='' @ purls fl) None,
                     EvDiscover (Inr c), EvWalCreate p (Some e)]
                  \<and> r = Inl (FatalWalCreate e))
           \<or> (\<exists>c. filter is_fresh tr =
                    [EvDiscoveryNew (durl fl) (ID self) (name fl @ ''='' @ purls fl) None,
                     EvDiscover (Inr c), EvWalCreate p None,
                     EvRaftInit (StartNode (ID self) (IDs c) 10 1)]
                  \<and> (\<forall>fl' s w'. r = Inr (fl', s, w') \<longrightarrow>
                        Node s = StartNode (ID self) (IDs c) 10 1 \<and> cluster fl' = c)))))"
  using assms(1,2)
proof (cases rule: fresh_filter_fresh)
  case (1 self es1 fl1 snapdir w1 es2 x2 es3)
  note k = dirs_keeps [OF 1(2)]
  note v = 1(1) and f = 1(6)
  let ?cfg = "name fl @ ''='' @ purls fl"
  from 1(3) show ?thesis
  proof (cases rule: fresh_cases)
    case (nodisc f')
    from nodisc(2) 1(5) have r: "r = Inl f'" by simp
    from nodisc(1) show ?thesis
    proof (cases rule: discovery_cases)
      case off
      with k assms(3) show ?thesis by simp
    next
      case nopurls
      with k have pu: "purls fl = []" and e2: "es2 = []" by simp_all
      from nopurls r have "r = Inl FatalDiscoveryRequiresPurls" by simp
      with e2 f pu show ?thesis by simp
    next
      case (initfail e)
      from k initfail
      have e2: "es2 = [EvDiscoveryNew (durl fl) (ID self) ?cfg (Some e)]"
        and pu: "purls fl \<noteq> []" by simp_all
      from initfail r have "r = Inl (FatalDiscoveryInit e)" by simp
      with e2 f have "\<exists>e. filter is_fresh tr = [EvDiscoveryNew (durl fl) (ID self) ?cfg (Some e)]
          \<and> r = Inl (FatalDiscoveryInit e)" by blast
      with pu v show ?thesis by blast
    next
      case (discoverfail e)
      from k discoverfail
      have e2: "es2 = [EvDiscoveryNew (durl fl) (ID self) ?cfg None, EvDiscover (Inl e)]"
        and pu: "purls fl \<noteq> []" by simp_all
      from discoverfail r have "r = Inl (FatalDiscover e)" by simp
      with e2 f have "\<exists>e. filter is_fresh tr =
            [EvDiscoveryNew (durl fl) (ID self) ?cfg None, EvDiscover (Inl e)]
          \<and> r = Inl (FatalDiscover e)" by blast
      with pu v show ?thesis by blast
    next
      case (discovered c w2)
      then show ?thesis by simp
    qed
  next
    case (createfail es0 fl0 w0 e)
    from createfail(3) 1(5) have r: "r = Inl (FatalWalCreate e)" by simp
    from createfail(1) show ?thesis
    proof (cases rule: discovery_cases)
      case off
      with k assms(3) show ?thesis by simp
    next
      case nopurls
      then show ?thesis by simp
    next
      case (initfail e)
      then show ?thesis by simp
    next
      case (discoverfail e)
      then show ?thesis by simp
    next
      case (discovered c w2)
      from k discovered createfail(2)
      have e2: "es2 = [EvDiscoveryNew (durl fl) (ID self) ?cfg None,
                       EvDiscover (Inr c), EvWalCreate p (Some e)]"
        and pu: "purls fl \<noteq> []" by simp_all
      from e2 f r have "\<exists>c e. filter is_fresh tr =
            [EvDiscoveryNew (durl fl) (ID self) ?cfg None,
             EvDiscover (Inr c), EvWalCreate p (Some e)]
          \<and> r = Inl (FatalWalCreate e)" by blast
      with pu v show ?thesis by blast
    qed
  next
    case (started es0 fl0 w0 w2)
    from started(1) show ?thesis
    proof (cases rule: discovery_cases)
      case off
      with k assms(3) show ?thesis by simp
    next
      case nopurls
      then show ?thesis by simp
    next
      case (initfail e)
      then show ?thesis by simp
    next
      case (discoverfail e)
      then show ?thesis by simp
    next
      case (discovered c w2')
      from discovered have c0: "cluster fl0 = c" by simp
      from k discovered started(2) c0
      have e2: "es2 = [EvDiscoveryNew (durl fl) (ID self) ?cfg None,
                       EvDiscover (Inr c), EvWalCreate p None,
                       EvRaftInit (StartNode (ID self) (IDs c) 10 1)]"
        and pu: "purls fl \<noteq> []" by simp_all
      have sv: "\<forall>fl' s w'. r = Inr (fl', s, w') \<longrightarrow>
                  Node s = StartNode (ID self) (IDs c) 10 1 \<and> cluster fl' = c"
      proof (intro allI impI)
        fix fl' s w' assume "r = Inr (fl', s, w')"
        with 1(5) started(3)
        have "startEtcd_serve env fl0 snapdir p (store_New env)
                (StartNode (ID self) (IDs (cluster fl0)) 10 1) w2 = (es3, Inr (fl', s, w'))"
          by simp
        from serve_flags [OF this] c0
        show "Node s = StartNode (ID self) (IDs c) 10 1 \<and> cluster fl' = c" by simp
      qed
      from e2 f have "filter is_fresh tr =
            [EvDiscoveryNew (durl fl) (ID self) ?cfg None,
             EvDiscover (Inr c), EvWalCreate p None,
             EvRaftInit (StartNode (ID self) (IDs c) 10 1)]" by simp
      with sv have "\<exists>c. filter is_fresh tr =
            [EvDiscoveryNew (durl fl) (ID self) ?cfg None,
             EvDiscover (Inr c), EvWalCreate p None,
             EvRaftInit (StartNode (ID self) (IDs c) 10 1)]
          \<and> (\<forall>fl' s w'. r = Inr (fl', s, w') \<longrightarrow>
                Node s = StartNode (ID self) (IDs c) 10 1 \<and> cluster fl' = c)" by blast
      with pu v show ?thesis by blast
    qed
  qed
qed

text \<open>
  Discovery configured with an advertised URL and a discovery service that returns three
  members; and discovery configured without an advertised URL.
\<close>

theorem C3_witness:
  "EvWalExist ''1_etcd_data/wal'' False \<in> set (fst (startEtcd sim flagsDiscovery diskDiscovery))
   \<and> durl flagsDiscovery \<noteq> [] \<and> purls flagsDiscovery \<noteq> []
   \<and> filter is_fresh (fst (startEtcd sim flagsDiscovery diskDiscovery)) =
       [EvDiscoveryNew ''http://disc/t'' 1 ''default=http://10.0.0.1:7001'' None,
        EvDiscover (Inr discovered), EvWalCreate ''1_etcd_data/wal'' None,
        EvRaftInit (StartNode 1 (IDs discovered) 10 1)]
   \<and> (\<exists>fl' s w'. snd (startEtcd sim flagsDiscovery diskDiscovery) = Inr (fl', s, w')
         \<and> Node s = StartNode 1 (IDs discovered) 10 1 \<and> cluster fl' = discovered)
   \<and> EvWalExist ''1_etcd_data/wal'' False \<in> set (fst (startEtcd sim flagsNoPurls emptyDisk))
   \<and> durl flagsNoPurls \<noteq> [] \<and> purls flagsNoPurls = []
   \<and> snd (startEtcd sim flagsNoPurls emptyDisk) = Inl FatalDiscoveryRequiresPurls
   \<and> filter is_fresh (fst (startEtcd sim flagsNoPurls emptyDisk)) = []"
proof -
  have h1: "EvWalExist ''1_etcd_data/wal'' False
              \<in> set (fst (startEtcd sim flagsDiscovery diskDiscovery))"
    and d1: "durl flagsDiscovery \<noteq> []" and p1: "purls flagsDiscovery \<noteq> []"
    by (simp_all add: run_discovery scenario_fields)
  have h2: "EvWalExist ''1_etcd_data/wal'' False \<in> set (fst (startEtcd sim flagsNoPurls emptyDisk))"
    and d2: "durl flagsNoPurls \<noteq> []" and p2: "purls flagsNoPurls = []"
    by (simp_all add: run_nopurls scenario_fields)
  from C3_discovery_before_log [OF prod.collapse [symmetric] h1 d1]
       C3_discovery_before_log [OF prod.collapse [symmetric] h2 d2]
       h1 d1 p1 h2 d2 p2 run_discovery_ok
  show ?thesis
    by (simp add: run_discovery run_nopurls IDs_def discovered_def)
qed

subsection \<open>C4: configuration errors\<close>

text \<open>
  Claim C4, as the code has it. An unknown node name, a member ID equal to
  \<open>raft.None\<close> and a snapshot count that is not positive are each fatal before any call
  is made: the trace is empty. Discovery without advertised peer URLs is detected only
  on the fresh path, and there it is fatal: at that point both \<open>os.MkdirAll\<close> calls have
  succeeded and \<open>wal.Exist\<close> has been consulted, and nothing else has been called (no
  discovery, no log creation). On the recovery path the same configuration never raises
  this error.
\<close>

theorem C4_configuration_errors:
  assumes "startEtcd env fl w = (tr, r)"
  shows "(FindName (cluster fl) (name fl) = None \<longrightarrow>
            tr = [] \<and> r = Inl (FatalNoMember (name fl)))
     \<and> (\<forall>m. FindName (cluster fl) (name fl) = Some m \<and> ID m = raft_None env \<longrightarrow>
            tr = [] \<and> r = Inl (FatalNoneID (raft_None env)))
     \<and> (\<forall>m. FindName (cluster fl) (name fl) = Some m \<and> ID m \<noteq> raft_None env
             \<and> sint (snapCount fl) \<le> 0 \<longrightarrow>
            tr = [] \<and> r = Inl (FatalSnapCount (snapCount fl)))
     \<and> (durl fl \<noteq> [] \<and> purls fl = [] \<and> EvWalExist p False \<in> set tr \<longrightarrow>
            r = Inl FatalDiscoveryRequiresPurls
            \<and> (\<exists>pre d s. tr = pre @ [EvMkdirAll d privateDirMode None,
                                      EvMkdirAll s privateDirMode None, EvWalExist p False]
                 \<and> (pre = [] \<or> (\<exists>msg. pre = [EvLogPrintf msg]))))
     \<and> (EvWalExist p True \<in> set tr \<longrightarrow> r \<noteq> Inl FatalDiscoveryRequiresPurls)"
proof (intro conjI impI allI)
  assume "FindName (cluster fl) (name fl) = None"
  then have "startEtcd_validate env fl = Inl (FatalNoMember (name fl))"
    by (simp add: startEtcd_validate_def)
  from invalid_run [OF assms this]
  show "tr = []" and "r = Inl (FatalNoMember (name fl))" by simp_all
next
  fix m assume "FindName (cluster fl) (name fl) = Some m \<and> ID m = raft_None env"
  then have "startEtcd_validate env fl = Inl (FatalNoneID (raft_None env))"
    by (simp add: startEtcd_validate_def)
  from invalid_run [OF assms this]
  show "tr = []" and "r = Inl (FatalNoneID (raft_None env))" by simp_all
next
  fix m assume "FindName (cluster fl) (name fl) = Some m \<and> ID m \<noteq> raft_None env
             \<and> sint (snapCount fl) \<le> 0"
  then have "startEtcd_validate env fl = Inl (FatalSnapCount (snapCount fl))"
    by (simp add: startEtcd_validate_def)
  from invalid_run [OF assms this]
  show "tr = []" and "r = Inl (FatalSnapCount (snapCount fl))" by simp_all
next
  assume a: "durl fl \<noteq> [] \<and> purls fl = [] \<and> EvWalExist p False \<in> set tr"
  then have w: "EvWalExist p False \<in> set tr" by simp
  from assms w have "r = Inl FatalDiscoveryRequiresPurls
            \<and> (\<exists>pre d s. tr = pre @ [EvMkdirAll d privateDirMode None,
                                      EvMkdirAll s privateDirMode None, EvWalExist p False]
                 \<and> (pre = [] \<or> (\<exists>msg. pre = [EvLogPrintf msg])))"
  proof (cases rule: fresh_path)
    case (fresh self es1 fl1 snapdir w1 es2 x2 es3)
    note k = dirs_keeps [OF fresh(2)]
    from k a have d: "durl fl1 \<noteq> []" "purls fl1 = []" by simp_all
    from d have "startEtcd_discovery env fl1 self w1 = ([], Inl FatalDiscoveryRequiresPurls)"
      by (simp add: startEtcd_discovery_def)
    with fresh(4) have "es2 = []" "x2 = Inl FatalDiscoveryRequiresPurls"
      by (simp_all add: startEtcd_fresh_def)
    with fresh(5,6) have t: "tr = es1 @ [EvWalExist p False]"
      and r: "r = Inl FatalDiscoveryRequiresPurls" by simp_all
    from dirs_ok_shape [OF fresh(2)] obtain pre d s where
      "es1 = pre @ [EvMkdirAll d privateDirMode None, EvMkdirAll s privateDirMode None]"
      "pre = [] \<or> (\<exists>msg. pre = [EvLogPrintf msg])" by blast
    with t have "tr = pre @ [EvMkdirAll d privateDirMode None,
                            EvMkdirAll s privateDirMode None, EvWalExist p False]
                 \<and> (pre = [] \<or> (\<exists>msg. pre = [EvLogPrintf msg]))" by simp
    with r show ?thesis by blast
  qed
  then show "r = Inl FatalDiscoveryRequiresPurls"
    and "\<exists>pre d s. tr = pre @ [EvMkdirAll d privateDirMode None,
                                      EvMkdirAll s privateDirMode None, EvWalExist p False]
                 \<and> (pre = [] \<or> (\<exists>msg. pre = [EvLogPrintf msg]))" by simp_all
next
  assume "EvWalExist p True \<in> set tr"
  then have "EvWalExist p True \<in> set tr \<or> (\<exists>e\<in>set tr. is_restart e)" by simp
  with assms show "r \<noteq> Inl FatalDiscoveryRequiresPurls"
    by (cases rule: restart_run) auto
qed

text \<open>
  The claim as written puts the detection of all four errors before any I/O. With
  \<open>-discovery\<close> set and no advertised peer URLs on an empty disk, the run creates the
  data directory and the snapshot directory and tests the WAL directory before it stops.
\<close>

theorem C4_counterexample:
  "durl flagsNoPurls \<noteq> [] \<and> purls flagsNoPurls = []
   \<and> snd (startEtcd sim flagsNoPurls emptyDisk) = Inl FatalDiscoveryRequiresPurls
   \<and> fst (startEtcd sim flagsNoPurls emptyDisk) =
       [EvLogPrintf ''main: no data-dir is given, using default data-dir ./1_etcd_data'',
        EvMkdirAll ''1_etcd_data'' 448 None,
        EvMkdirAll ''1_etcd_data/snap'' 448 None,
        EvWalExist ''1_etcd_data/wal'' False]"
  by (simp add: run_nopurls scenario_fields)

text \<open>
  One scenario for each of the five parts: an unknown name, a member with ID 0, a
  snapshot count of 0, discovery without advertised URLs on an empty disk, and the same
  flags on a disk that holds a WAL.
\<close>

theorem C4_witness:
  "FindName (cluster flagsNobody) (name flagsNobody)
     = None
   \<and> startEtcd sim flagsNobody emptyDisk
       = ([], Inl (FatalNoMember ''nobody''))
   \<and> startEtcd sim
        flagsNoneID emptyDisk = ([], Inl (FatalNoneID 0))
   \<and> sint (snapCount flagsSnapCount0) \<le> 0
   \<and> startEtcd sim flagsSnapCount0 emptyDisk = ([], Inl (FatalSnapCount 0))
   \<and> durl flagsNoPurls \<noteq> [] \<and> purls flagsNoPurls = []
   \<and> EvWalExist ''1_etcd_data/wal'' False \<in> set (fst (startEtcd sim flagsNoPurls emptyDisk))
   \<and> snd (startEtcd sim flagsNoPurls emptyDisk) = Inl FatalDiscoveryRequiresPurls
   \<and> EvWalExist ''1_etcd_data/wal'' True \<in> set (fst (startEtcd sim flagsNoPurls diskNoSnap))
   \<and> snd (startEtcd sim flagsNoPurls diskNoSnap) \<noteq> Inl FatalDiscoveryRequiresPurls"
proof -
  have a: "EvWalExist ''1_etcd_data/wal'' True \<in> set (fst (startEtcd sim flagsNoPurls diskNoSnap))"
    by (simp add: run_nopurls_restart)
  from C4_configuration_errors [where env = sim and fl = flagsNoPurls and w = diskNoSnap
         and p = "''1_etcd_data/wal''", OF prod.collapse [symmetric]] a
  have b: "snd (startEtcd sim flagsNoPurls diskNoSnap) \<noteq> Inl FatalDiscoveryRequiresPurls"
    by blast
  from C4_configuration_errors [where env = sim and fl = flagsNobody
         and w = emptyDisk and p = "''1_etcd_data/wal''", OF prod.collapse [symmetric]]
       C4_configuration_errors [where env = sim
         and fl = flagsNoneID
         and w = emptyDisk and p = "''1_etcd_data/wal''", OF prod.collapse [symmetric]]
       C4_configuration_errors [where env = sim and fl = flagsSnapCount0
         and w = emptyDisk and p = "''1_etcd_data/wal''", OF prod.collapse [symmetric]]
       C4_configuration_errors [where env = sim and fl = flagsNoPurls
         and w = emptyDisk and p = "''1_etcd_data/wal''", OF prod.collapse [symmetric]]
       a b
  show ?thesis
    by (simp add: run_unknown_name run_none_id run_snapcount run_nopurls FindName_def
          scenario_fields defaultFlags_fields)
qed

subsection \<open>C5: a persisted node identifier other than zero\<close>

text \<open>
  Claim C5. In every run in which \<open>ReadAll\<close> returned a node identifier other than 0,
  \<open>startEtcd\<close> ends in the fatal error "unexpected nodeid"; reading the log is the last
  call of the run, so the consensus engine is never initialised and nothing of the
  service composition is started.
\<close>

theorem C5_nonzero_id_aborts:
  assumes "startEtcd env fl w = (tr, r)"
    and "EvWalReadAll (Inr (wid, hst, ents)) \<in> set tr" and "wid \<noteq> 0"
  shows "r = Inl (FatalUnexpectedNodeID wid)
       \<and> last tr = EvWalReadAll (Inr (wid, hst, ents))
       \<and> filter is_init tr = [] \<and> filter is_compose tr = []"
proof -
  from assms(2) have m: "EvWalReadAll (Inr (wid, hst, ents)) \<in> set (filter is_restart tr)"
    by simp
  from assms(2) have "EvWalExist p True \<in> set tr \<or> (\<exists>e\<in>set tr. is_restart e)" for p
    by force
  with assms(1) show ?thesis
  proof (cases rule: restart_run)
    case (loadfail self sno e)
    with m show ?thesis by simp
  next
    case (openfail self waldir sno err res e)
    with m show ?thesis by (simp split: option.splits)
  next
    case (readfail self waldir sno err res e)
    with m show ?thesis by (simp split: option.splits)
  next
    case (badid self waldir sno err res wid' hst' ents')
    from m badid(4) have eq: "wid' = wid" "hst' = hst" "ents' = ents"
      by (simp_all split: option.splits)
    from badid(4) have "filter is_init (filter is_restart tr) = []"
      by (simp split: option.splits)
    with init_via_restart [OF badid(7)] have "filter is_init tr = []" by simp
    with badid(5,6,8) eq show ?thesis by simp
  next
    case (restarted self waldir sno err res hst' ents' st)
    from m restarted(3) assms(3) show ?thesis by (simp split: option.splits)
  qed
qed

text \<open>
  A log whose persisted identifier is 7.
\<close>

theorem C5_witness:
  "EvWalReadAll (Inr (7, hardState1, [entryAt 1, entryAt 2]))
     \<in> set (fst (startEtcd sim defaultFlags diskBadId))
   \<and> (7 :: int64) \<noteq> 0
   \<and> snd (startEtcd sim defaultFlags diskBadId) = Inl (FatalUnexpectedNodeID 7)
   \<and> last (fst (startEtcd sim defaultFlags diskBadId))
       = EvWalReadAll (Inr (7, hardState1, [entryAt 1, entryAt 2]))
   \<and> filter is_init (fst (startEtcd sim defaultFlags diskBadId)) = []
   \<and> filter is_compose (fst (startEtcd sim defaultFlags diskBadId)) = []"
proof -
  have h: "EvWalReadAll (Inr (7, hardState1, [entryAt 1, entryAt 2]))
             \<in> set (fst (startEtcd sim defaultFlags diskBadId))"
    by (simp add: run_badid)
  have n: "(7 :: int64) \<noteq> 0" by simp
  from C5_nonzero_id_aborts [OF prod.collapse [symmetric] h n] h n show ?thesis by simp
qed

subsection \<open>C6: no snapshot present\<close>

text \<open>
  Claim C6. In a run in which \<open>snapshotter.Load\<close> returned no snapshot and
  \<open>snap.ErrNoSnapshot\<close>, the next call of the recovery branch is
  \<open>wal.OpenAtIndex(waldir, 0)\<close>, \<open>st.Recovery\<close> is never called, the run does not end
  in the snapshot-load error, and the store of a run that returns is the one
  \<open>store.New()\<close> made. In a run in which the load returned any other error, that error
  is fatal and the load is the last call.
\<close>

theorem C6_no_snapshot_is_not_an_error:
  assumes "startEtcd env fl w = (tr, r)"
  shows "(EvSnapLoad None (Some ErrNoSnapshot) \<in> set tr \<longrightarrow>
            (\<exists>p x rest. filter is_restart tr =
               EvSnapLoad None (Some ErrNoSnapshot) # EvWalOpenAtIndex p 0 x # rest)
            \<and> (\<forall>d x. EvStoreRecovery d x \<notin> set tr)
            \<and> (\<forall>f. r \<noteq> Inl (FatalSnapLoad f))
            \<and> (\<forall>fl' s w'. r = Inr (fl', s, w') \<longrightarrow> Store s = store_New env))
       \<and> (\<forall>sno e. EvSnapLoad sno (Some e) \<in> set tr \<and> e \<noteq> ErrNoSnapshot \<longrightarrow>
            r = Inl (FatalSnapLoad e) \<and> last tr = EvSnapLoad sno (Some e))"
proof (intro conjI impI allI)
  assume a: "EvSnapLoad None (Some ErrNoSnapshot) \<in> set tr"
  then have m: "EvSnapLoad None (Some ErrNoSnapshot) \<in> set (filter is_restart tr)" by simp
  from a have "EvWalExist p True \<in> set tr \<or> (\<exists>e\<in>set tr. is_restart e)" for p by force
  with assms have "(\<exists>p x rest. filter is_restart tr =
               EvSnapLoad None (Some ErrNoSnapshot) # EvWalOpenAtIndex p 0 x # rest)
            \<and> (\<forall>d x. EvStoreRecovery d x \<notin> set (filter is_restart tr))
            \<and> (\<forall>f. r \<noteq> Inl (FatalSnapLoad f))
            \<and> (\<forall>fl' s w'. r = Inr (fl', s, w') \<longrightarrow> Store s = store_New env)"
  proof (cases rule: restart_run)
    case (loadfail self sno e)
    with m show ?thesis by simp
  next
    case (openfail self waldir sno err res e)
    from m openfail(3) have "sno = None" "err = Some ErrNoSnapshot"
      by (simp_all split: option.splits)
    with openfail(3,4) show ?thesis by simp
  next
    case (readfail self waldir sno err res e)
    from m readfail(3) have "sno = None" "err = Some ErrNoSnapshot"
      by (simp_all split: option.splits)
    with readfail(3,4) show ?thesis by simp
  next
    case (badid self waldir sno err res wid hst ents)
    from m badid(4) have "sno = None" "err = Some ErrNoSnapshot"
      by (simp_all split: option.splits)
    with badid(4,5) show ?thesis by simp
  next
    case (restarted self waldir sno err res hst ents st)
    from m restarted(3) have e: "sno = None" "err = Some ErrNoSnapshot"
      by (simp_all split: option.splits)
    from e restarted(4) have st: "st = store_New env" by simp
    from restarted(6) have f: "\<forall>f. r \<noteq> Inl (FatalSnapLoad f)" by auto
    from restarted(5) st have s: "\<forall>fl' s w'. r = Inr (fl', s, w') \<longrightarrow> Store s = store_New env"
      by blast
    from e restarted(3) have "(\<exists>p x rest. filter is_restart tr =
               EvSnapLoad None (Some ErrNoSnapshot) # EvWalOpenAtIndex p 0 x # rest)
            \<and> (\<forall>d x. EvStoreRecovery d x \<notin> set (filter is_restart tr))" by simp
    with f s show ?thesis by blast
  qed
  then show "\<exists>p x rest. filter is_restart tr =
               EvSnapLoad None (Some ErrNoSnapshot) # EvWalOpenAtIndex p 0 x # rest"
    and "\<And>f. r \<noteq> Inl (FatalSnapLoad f)"
    and "\<And>d x. EvStoreRecovery d x \<notin> set tr"
    and "\<And>fl' s w'. r = Inr (fl', s, w') \<Longrightarrow> Store s = store_New env"
    by auto
next
  fix sno e assume a: "EvSnapLoad sno (Some e) \<in> set tr \<and> e \<noteq> ErrNoSnapshot"
  then have m: "EvSnapLoad sno (Some e) \<in> set (filter is_restart tr)" by simp
  from a have "EvWalExist p True \<in> set tr \<or> (\<exists>e\<in>set tr. is_restart e)" for p by force
  with assms have "r = Inl (FatalSnapLoad e) \<and> last tr = EvSnapLoad sno (Some e)"
  proof (cases rule: restart_run)
    case (loadfail self sno' e')
    with m show ?thesis by simp
  next
    case (openfail self waldir sno' err res e')
    from m openfail(3) have "err = Some e" by (simp split: option.splits)
    with openfail(2) a show ?thesis by simp
  next
    case (readfail self waldir sno' err res e')
    from m readfail(3) have "err = Some e" by (simp split: option.splits)
    with readfail(2) a show ?thesis by simp
  next
    case (badid self waldir sno' err res wid hst ents)
    from m badid(4) have "err = Some e" by (simp split: option.splits)
    with badid(2) a show ?thesis by simp
  next
    case (restarted self waldir sno' err res hst ents st)
    from m restarted(3) have "err = Some e" by (simp split: option.splits)
    with restarted(2) a show ?thesis by simp
  qed
  then show "r = Inl (FatalSnapLoad e)" and "last tr = EvSnapLoad sno (Some e)" by simp_all
qed

text \<open>
  A disk with a WAL and no snapshot, and a disk whose snapshot cannot be read.
\<close>

theorem C6_witness:
  "EvSnapLoad None (Some ErrNoSnapshot) \<in> set (fst (startEtcd sim defaultFlags diskNoSnap))
   \<and> filter is_restart (fst (startEtcd sim defaultFlags diskNoSnap)) =
       [EvSnapLoad None (Some ErrNoSnapshot), EvWalOpenAtIndex ''1_etcd_data/wal'' 0 None,
        EvWalReadAll (Inr (0, hardState1, [entryAt 1, entryAt 2])),
        EvRaftInit (RestartNode 1 [1] 10 1 None hardState1 [entryAt 1, entryAt 2])]
   \<and> (\<exists>fl' s w'. snd (startEtcd sim defaultFlags diskNoSnap) = Inr (fl', s, w')
         \<and> Store s = store_New sim)
   \<and> EvSnapLoad None (Some (Err ''crc mismatch''))
       \<in> set (fst (startEtcd sim defaultFlags diskSnapErr))
   \<and> Err ''crc mismatch'' \<noteq> ErrNoSnapshot
   \<and> snd (startEtcd sim defaultFlags diskSnapErr) = Inl (FatalSnapLoad (Err ''crc mismatch''))
   \<and> last (fst (startEtcd sim defaultFlags diskSnapErr))
       = EvSnapLoad None (Some (Err ''crc mismatch''))"
  using C6_no_snapshot_is_not_an_error [where env = sim and fl = defaultFlags and w = diskNoSnap,
          OF prod.collapse [symmetric]]
        C6_no_snapshot_is_not_an_error [where env = sim and fl = defaultFlags and w = diskSnapErr,
          OF prod.collapse [symmetric]]
        run_nosnap_ok
  by (simp add: run_nosnap run_snaperr sim_fields)

subsection \<open>C7: resolving this node in the cluster\<close>

text \<open>
  Claim C7. Either \<open>startEtcd\<close> ends in a fatal configuration error with an empty
  trace (no directory created, nothing sent), or the lookup yields a member of the
  configured cluster whose name is the configured name and whose ID is not
  \<open>raft.None\<close>, which is the only such member when names are unique, and whose ID is the
  one every initialisation of the consensus engine receives. When no member has the name,
  and when the member with the name has the ID \<open>raft.None\<close>, the run is fatal with an
  empty trace.
\<close>

theorem C7_resolve_self:
  assumes "startEtcd env fl w = (tr, r)"
  shows "((tr = [] \<and> (r = Inl (FatalNoMember (name fl)) \<or> r = Inl (FatalNoneID (raft_None env))
                      \<or> r = Inl (FatalSnapCount (snapCount fl))))
          \<or> (\<exists>self. startEtcd_validate env fl = Inr self \<and> self \<in> set (cluster fl)
                \<and> Name self = name fl \<and> ID self \<noteq> raft_None env
                \<and> (\<forall>m\<in>set (cluster fl).
                      Name m = name fl \<longrightarrow> distinct (map Name (cluster fl)) \<longrightarrow> m = self)
                \<and> (\<forall>n. EvRaftInit n \<in> set tr \<longrightarrow> node_id n = ID self)))
       \<and> ((\<forall>m\<in>set (cluster fl). Name m \<noteq> name fl) \<longrightarrow>
             tr = [] \<and> r = Inl (FatalNoMember (name fl)))
       \<and> (\<forall>m\<in>set (cluster fl). Name m = name fl \<longrightarrow> distinct (map Name (cluster fl)) \<longrightarrow>
             ID m = raft_None env \<longrightarrow> tr = [] \<and> r = Inl (FatalNoneID (raft_None env)))"
proof (intro conjI)
  show "(tr = [] \<and> (r = Inl (FatalNoMember (name fl)) \<or> r = Inl (FatalNoneID (raft_None env))
                      \<or> r = Inl (FatalSnapCount (snapCount fl))))
          \<or> (\<exists>self. startEtcd_validate env fl = Inr self \<and> self \<in> set (cluster fl)
                \<and> Name self = name fl \<and> ID self \<noteq> raft_None env
                \<and> (\<forall>m\<in>set (cluster fl).
                      Name m = name fl \<longrightarrow> distinct (map Name (cluster fl)) \<longrightarrow> m = self)
                \<and> (\<forall>n. EvRaftInit n \<in> set tr \<longrightarrow> node_id n = ID self))"
  proof (cases "startEtcd_validate env fl")
    case (Inl f)
    from invalid_run [OF assms Inl] Inl show ?thesis
      by (auto simp: startEtcd_validate_def split: option.splits if_splits)
  next
    case (Inr self)
    from Inr have f: "FindName (cluster fl) (name fl) = Some self" "ID self \<noteq> raft_None env"
      by (auto elim: validate_cases)
    note m = FindName_Some [OF f(1)]
    have "\<forall>m\<in>set (cluster fl).
            Name m = name fl \<longrightarrow> distinct (map Name (cluster fl)) \<longrightarrow> m = self"
      using m by (auto intro: unique_name)
    moreover have "\<forall>n. EvRaftInit n \<in> set tr \<longrightarrow> node_id n = ID self"
      using init_node_id [OF assms Inr] by blast
    ultimately show ?thesis using Inr m f(2) by blast
  qed
next
  show "(\<forall>m\<in>set (cluster fl). Name m \<noteq> name fl) \<longrightarrow>
          tr = [] \<and> r = Inl (FatalNoMember (name fl))"
  proof
    assume "\<forall>m\<in>set (cluster fl). Name m \<noteq> name fl"
    then have "FindName (cluster fl) (name fl) = None" by (simp add: FindName_None)
    then have "startEtcd_validate env fl = Inl (FatalNoMember (name fl))"
      by (simp add: startEtcd_validate_def)
    from invalid_run [OF assms this] show "tr = [] \<and> r = Inl (FatalNoMember (name fl))" .
  qed
next
  show "\<forall>m\<in>set (cluster fl). Name m = name fl \<longrightarrow> distinct (map Name (cluster fl)) \<longrightarrow>
             ID m = raft_None env \<longrightarrow> tr = [] \<and> r = Inl (FatalNoneID (raft_None env))"
  proof (intro ballI impI)
    fix m assume m: "m \<in> set (cluster fl)" "Name m = name fl"
      "distinct (map Name (cluster fl))" "ID m = raft_None env"
    from m(1,2) have "FindName (cluster fl) (name fl) \<noteq> None"
      by (auto simp: FindName_None)
    then obtain self where s: "FindName (cluster fl) (name fl) = Some self" by auto
    from FindName_Some [OF s] m have "self = m" by (auto intro: unique_name)
    with s m(4) have "startEtcd_validate env fl = Inl (FatalNoneID (raft_None env))"
      by (simp add: startEtcd_validate_def)
    from invalid_run [OF assms this]
    show "tr = [] \<and> r = Inl (FatalNoneID (raft_None env))" .
  qed
qed

text \<open>
  The default flags, whose cluster has the member named \<open>default\<close>; a name that no member
  has; and a member whose ID is 0.
\<close>

theorem C7_witness:
  "startEtcd_validate sim defaultFlags
     = Inr \<lparr>Name = ''default'', ID = 1, PeerURL = ''localhost:8080''\<rparr>
   \<and> distinct (map Name (cluster defaultFlags))
   \<and> map node_id [StartNode 1 [1] 10 1] = [1]
   \<and> filter is_init (fst (startEtcd sim defaultFlags emptyDisk))
       = [EvRaftInit (StartNode 1 [1] 10 1)]
   \<and> filter (\<lambda>m. Name m = name flagsNobody) (cluster flagsNobody) = []
   \<and> startEtcd sim flagsNobody emptyDisk
       = ([], Inl (FatalNoMember ''nobody''))
   \<and> startEtcd sim
        flagsNoneID emptyDisk = ([], Inl (FatalNoneID (raft_None sim)))"
proof -
  note v = validate_default
  from C7_resolve_self [where env = sim and fl = defaultFlags and w = emptyDisk,
         OF prod.collapse [symmetric]]
       C7_resolve_self [where env = sim and fl = flagsNobody
         and w = emptyDisk, OF prod.collapse [symmetric]]
       C7_resolve_self [where env = sim
         and fl = flagsNoneID
         and w = emptyDisk, OF prod.collapse [symmetric]]
       v
  show ?thesis
    by (simp add: run_fresh run_unknown_name run_none_id sim_fields scenario_fields
          defaultFlags_fields)
qed

subsection \<open>C8: endpoints start after the initialisation\<close>

text \<open>
  Claim C8. In \<open>main\<close> with the proxy switched off, every call that creates a listener or
  launches a serving goroutine comes after the test of the WAL directory, after the
  initialisation of the consensus engine and after \<open>s.Start()\<close>, and only calls of the
  service composition follow it. When \<open>main\<close> reaches the receive on the empty channel,
  the last thing it did was to launch a serving goroutine, and it has launched one for the
  peer address and one for each client address; otherwise it died in a fatal error.
\<close>

theorem C8_endpoints_after_initialisation:
  assumes "main env fl w = (tr, en)" and "\<not> printVersion fl"
    and "proxyFlag (SetFlagsFromEnv env w fl) = ProxyValueOff env"
  shows "(\<forall>pre e post. tr = pre @ e # post \<and> is_endpoint e \<longrightarrow>
            (\<exists>n. EvRaftInit n \<in> set pre) \<and> (\<exists>p b. EvWalExist p b \<in> set pre)
            \<and> EvServerStart \<in> set pre \<and> (\<forall>x\<in>set post. is_compose x))
       \<and> (en = BlockedForever \<longrightarrow>
            tr \<noteq> [] \<and> is_go (last tr)
            \<and> length (filter is_go tr) = Suc (length (addrs (SetFlagsFromEnv env w fl))))
       \<and> (en \<noteq> BlockedForever \<longrightarrow> (\<exists>f. en = Died f))"
proof -
  let ?fl = "SetFlagsFromEnv env w fl"
  obtain tr0 r0 where run: "startEtcd env ?fl w = (tr0, r0)" by force
  with assms have tr: "tr = EvSetFlagsFromEnv # tr0"
    and en: "en = (case r0 of Inl f \<Rightarrow> Died f | Inr y \<Rightarrow> BlockedForever)"
    by (auto simp: main_def Let_def split: sum.splits)
  have a: "(\<exists>n. EvRaftInit n \<in> set pre) \<and> (\<exists>p b. EvWalExist p b \<in> set pre)
            \<and> EvServerStart \<in> set pre \<and> (\<forall>x\<in>set post. is_compose x)"
    if "tr = pre @ e # post" "is_endpoint e" for pre e post
  proof (cases pre)
    case Nil
    with that tr show ?thesis by auto
  next
    case (Cons u pre')
    with that tr have "tr0 = pre' @ e # post" by simp
    from startEtcd_endpoint [OF run this that(2)] Cons show ?thesis by auto
  qed
  have b: "tr \<noteq> [] \<and> is_go (last tr) \<and> length (filter is_go tr) = Suc (length (addrs ?fl))"
    if "en = BlockedForever"
  proof -
    from that en obtain y where "r0 = Inr y" by (cases r0) auto
    from startEtcd_launched [OF run [unfolded this]] tr show ?thesis by simp
  qed
  have c: "\<exists>f. en = Died f" if "en \<noteq> BlockedForever"
    using that en by (cases r0) auto
  from a b c show ?thesis by blast
qed

text \<open>
  The default flags on an empty disk: one peer endpoint and one client endpoint; the peer
  listener is the first endpoint call.
\<close>

theorem C8_witness:
  "\<not> printVersion defaultFlags
   \<and> proxyFlag (SetFlagsFromEnv sim emptyDisk defaultFlags) = ProxyValueOff sim
   \<and> snd (main sim defaultFlags emptyDisk) = BlockedForever
   \<and> is_go (last (fst (main sim defaultFlags emptyDisk)))
   \<and> length (filter is_go (fst (main sim defaultFlags emptyDisk))) = 2
   \<and> fst (main sim defaultFlags emptyDisk) =
       [EvSetFlagsFromEnv,
        EvLogPrintf ''main: no data-dir is given, using default data-dir ./1_etcd_data'',
        EvMkdirAll ''1_etcd_data'' 448 None,
        EvMkdirAll ''1_etcd_data/snap'' 448 None,
        EvWalExist ''1_etcd_data/wal'' False,
        EvWalCreate ''1_etcd_data/wal'' None,
        EvRaftInit (StartNode 1 [1] 10 1),
        EvNewTransport noTLS None,
        EvServerStart]
       @ EvNewListener '':7001'' noTLS None
       # [EvGoServe '':7001'' PeerHandler,
          EvNewListener ''127.0.0.1:4001'' noTLS None,
          EvGoServe ''127.0.0.1:4001'' (CORSHandler (ClientHandler 10000000000) [])]
   \<and> is_endpoint (EvNewListener '':7001'' noTLS None)"
proof -
  have h1: "\<not> printVersion defaultFlags"
    and h2: "proxyFlag (SetFlagsFromEnv sim emptyDisk defaultFlags) = ProxyValueOff sim"
    by (simp_all add: sim_fields defaultFlags_fields)
  from C8_endpoints_after_initialisation [OF prod.collapse [symmetric] h1 h2] h1 h2
  show ?thesis by (simp add: run_main sim_fields defaultFlags_fields)
qed

subsection \<open>C9: the result of restoring the store\<close>

text \<open>
  Claim C9. In a run in which \<open>st.Recovery\<close> was called, whatever it returned, it was
  called on the data of the loaded snapshot, the next call of the recovery branch is
  \<open>wal.OpenAtIndex\<close> at the snapshot's index, the run does not end in a snapshot error,
  and when the log opens, \<open>ReadAll\<close> follows, and \<open>raft.RestartNode\<close> with that snapshot
  follows a successful read with identifier 0.
\<close>

theorem C9_recovery_result_discarded:
  assumes "startEtcd env fl w = (tr, r)" and "EvStoreRecovery d res \<in> set tr"
  shows "\<exists>sn err p x rest.
      filter is_restart tr =
        EvSnapLoad (Some sn) err # EvStoreRecovery d res # EvWalOpenAtIndex p (Index sn) x # rest
      \<and> d = Data sn
      \<and> (\<forall>f. r \<noteq> Inl (FatalSnapLoad f))
      \<and> (x = None \<longrightarrow> (\<exists>rd rest'. rest = EvWalReadAll rd # rest'
            \<and> (\<forall>hst ents. rd = Inr (0, hst, ents) \<longrightarrow>
                 (\<exists>i ps. rest' = [EvRaftInit (RestartNode i ps 10 1 (Some sn) hst ents)]))))"
proof -
  from assms(2) have m: "EvStoreRecovery d res \<in> set (filter is_restart tr)" by simp
  from assms(2) have "EvWalExist p True \<in> set tr \<or> (\<exists>e\<in>set tr. is_restart e)" for p
    by force
  with assms(1) show ?thesis
  proof (cases rule: restart_run)
    case (loadfail self sno e)
    with m show ?thesis by simp
  next
    case (openfail self waldir sno err res' e)
    from m openfail(3) obtain sn where "sno = Some sn" "d = Data sn" "res' = res"
      by (auto split: option.splits)
    with openfail(3,4) show ?thesis by simp
  next
    case (readfail self waldir sno err res' e)
    from m readfail(3) obtain sn where "sno = Some sn" "d = Data sn" "res' = res"
      by (auto split: option.splits)
    with readfail(3,4) show ?thesis by simp
  next
    case (badid self waldir sno err res' wid hst ents)
    from m badid(4) obtain sn where "sno = Some sn" "d = Data sn" "res' = res"
      by (auto split: option.splits)
    with badid(3,4,5) show ?thesis by simp
  next
    case (restarted self waldir sno err res' hst ents st)
    from m restarted(3) obtain sn where e: "sno = Some sn" "d = Data sn" "res' = res"
      by (auto split: option.splits)
    from restarted(6) have f: "\<forall>f. r \<noteq> Inl (FatalSnapLoad f)" by auto
    from e restarted(3) have "filter is_restart tr =
        EvSnapLoad (Some sn) err # EvStoreRecovery d res # EvWalOpenAtIndex waldir (Index sn) None
        # [EvWalReadAll (Inr (0, hst, ents)),
           EvRaftInit (RestartNode (ID self) (IDs (cluster fl)) 10 1 (Some sn) hst ents)]"
      by simp
    with f e(2) show ?thesis by simp
  qed
qed

text \<open>
  A snapshot with an empty payload, which the store refuses: the node restarts all the
  same and \<open>startEtcd\<close> returns.
\<close>

theorem C9_witness:
  "EvStoreRecovery [] (Some (Err ''cannot decode''))
     \<in> set (fst (startEtcd sim defaultFlags diskBadPayload))
   \<and> filter is_restart (fst (startEtcd sim defaultFlags diskBadPayload)) =
       [EvSnapLoad (Some \<lparr>Index = 5, Data = []\<rparr>) None,
        EvStoreRecovery [] (Some (Err ''cannot decode'')),
        EvWalOpenAtIndex ''1_etcd_data/wal'' 5 None,
        EvWalReadAll (Inr (0, hardState1, [entryAt 5, entryAt 6])),
        EvRaftInit (RestartNode 1 [1] 10 1 (Some \<lparr>Index = 5, Data = []\<rparr>) hardState1
                      [entryAt 5, entryAt 6])]
   \<and> (\<exists>y. snd (startEtcd sim defaultFlags diskBadPayload) = Inr y)"
proof -
  have h: "EvStoreRecovery [] (Some (Err ''cannot decode''))
             \<in> set (fst (startEtcd sim defaultFlags diskBadPayload))"
    by (simp add: run_badpayload)
  from C9_recovery_result_discarded [OF prod.collapse [symmetric] h] h run_badpayload_ok
  show ?thesis by (simp add: run_badpayload)
qed

subsection \<open>C10: the default data directory\<close>

text \<open>
  Claim C10. When \<open>-data-dir\<close> is empty and the configuration is valid, the run does not
  stop there: it logs the default, calls \<open>os.MkdirAll\<close> on the decimal rendering of this
  node's ID followed by \<open>_etcd_data\<close>, then on the \<open>snap\<close> directory below it, then
  tests the \<open>wal\<close> directory below it; and the \<open>dir\<close> variable of a run that returns
  holds that default.
\<close>

theorem C10_default_data_dir:
  assumes "startEtcd env fl w = (tr, r)" and "startEtcd_validate env fl = Inr self"
    and "dir fl = []"
  shows "\<exists>res rest.
      tr = EvLogPrintf (''main: no data-dir is given, using default data-dir ./''
                        @ Sprintf_int64 (ID self) @ ''_etcd_data'')
           # EvMkdirAll (Sprintf_int64 (ID self) @ ''_etcd_data'') privateDirMode res # rest
      \<and> (res = None \<longrightarrow> (\<exists>res2 rest2.
            rest = EvMkdirAll (path_Join env (Sprintf_int64 (ID self) @ ''_etcd_data'') ''snap'')
                     privateDirMode res2 # rest2
            \<and> (res2 = None \<longrightarrow> (\<exists>b rest3.
                 rest2 = EvWalExist (path_Join env (Sprintf_int64 (ID self) @ ''_etcd_data'')
                           ''wal'') b # rest3))))
      \<and> (\<forall>fl' s w'. r = Inr (fl', s, w') \<longrightarrow> dir fl' = Sprintf_int64 (ID self) @ ''_etcd_data'')"
proof -
  let ?d = "Sprintf_int64 (ID self) @ ''_etcd_data''"
  obtain es1 x1 where d: "startEtcd_dirs env fl self w = (es1, x1)" by force
  from dirs_shape [OF d] assms(3) obtain res rest where
    es1: "es1 = EvLogPrintf (''main: no data-dir is given, using default data-dir ./'' @ ?d)
                # EvMkdirAll ?d privateDirMode res # rest"
    and bad: "res \<noteq> None \<longrightarrow> rest = [] \<and> x1 = Inl (FatalDataDir (the res))"
    and ok: "res = None \<longrightarrow> (\<exists>res2. rest = [EvMkdirAll (path_Join env ?d ''snap'') privateDirMode res2]
            \<and> (res2 \<noteq> None \<longrightarrow> x1 = Inl (FatalSnapDir (the res2)))
            \<and> (res2 = None \<longrightarrow> (\<exists>y. x1 = Inr y)))"
    by (auto simp: defaultDir_def)
  from assms(1) show ?thesis
  proof (cases rule: startEtcd_paths)
    case (invalid f)
    with assms(2) show ?thesis by simp
  next
    case (dirs self' f)
    with assms(2) d have "tr = es1" "x1 = Inl f" by simp_all
    with es1 bad ok dirs(3) show ?thesis by auto
  next
    case (fresh self' es1' fl1 snapdir waldir w1 es2 x2 es3)
    with assms(2) d have e: "es1' = es1" "x1 = Inr (fl1, snapdir, waldir, w1)" "self' = self"
      by simp_all
    from dirs_result [OF fresh(2)] assms(3) e
    have fl1: "dir fl1 = ?d" "waldir = path_Join env ?d ''wal''"
      by (simp_all add: defaultDir_def)
    have "\<forall>fl' s w'. r = Inr (fl', s, w') \<longrightarrow> dir fl' = ?d"
    proof (intro allI impI)
      fix fl' s w' assume r: "r = Inr (fl', s, w')"
      with fresh(6) obtain fl2 st n w2 where x2: "x2 = Inr (fl2, st, n, w2)"
        and sv: "startEtcd_serve env fl2 snapdir waldir st n w2 = (es3, Inr (fl', s, w'))"
        by (auto split: sum.splits)
      from fresh_flags [OF fresh(4) [unfolded x2]] serve_flags [OF sv] fl1
      show "dir fl' = ?d" by auto
    qed
    with es1 bad ok e fl1 fresh(5) show ?thesis by auto
  next
    case (restart self' es1' fl1 snapdir waldir w1 es2 x2 es3)
    with assms(2) d have e: "es1' = es1" "x1 = Inr (fl1, snapdir, waldir, w1)" "self' = self"
      by simp_all
    from dirs_result [OF restart(2)] assms(3) e
    have fl1: "dir fl1 = ?d" "waldir = path_Join env ?d ''wal''"
      by (simp_all add: defaultDir_def)
    have "\<forall>fl' s w'. r = Inr (fl', s, w') \<longrightarrow> dir fl' = ?d"
    proof (intro allI impI)
      fix fl' s w' assume r: "r = Inr (fl', s, w')"
      with restart(6) obtain fl2 st n w2 where x2: "x2 = Inr (fl2, st, n, w2)"
        and sv: "startEtcd_serve env fl2 snapdir waldir st n w2 = (es3, Inr (fl', s, w'))"
        by (auto split: sum.splits)
      from restart_flags [OF restart(4) [unfolded x2]] serve_flags [OF sv] fl1
      show "dir fl' = ?d" by auto
    qed
    with es1 bad ok e fl1 restart(5) show ?thesis by auto
  qed
qed

text \<open>
  The default flags: the member has ID 1, the directory is \<open>1_etcd_data\<close>.
\<close>

theorem C10_witness:
  "startEtcd_validate sim defaultFlags
     = Inr \<lparr>Name = ''default'', ID = 1, PeerURL = ''localhost:8080''\<rparr>
   \<and> dir defaultFlags = []
   \<and> Sprintf_int64 1 @ ''_etcd_data'' = ''1_etcd_data''
   \<and> take 4 (fst (startEtcd sim defaultFlags emptyDisk)) =
       [EvLogPrintf ''main: no data-dir is given, using default data-dir ./1_etcd_data'',
        EvMkdirAll ''1_etcd_data'' privateDirMode None,
        EvMkdirAll ''1_etcd_data/snap'' privateDirMode None,
        EvWalExist ''1_etcd_data/wal'' False]
   \<and> (\<exists>fl' s w'. snd (startEtcd sim defaultFlags emptyDisk) = Inr (fl', s, w')
         \<and> dir fl' = ''1_etcd_data'')"
proof -
  note v = validate_default
  have d: "dir defaultFlags = []" by (simp add: defaultFlags_fields)
  from C10_default_data_dir [OF prod.collapse [symmetric] v d] v d show ?thesis
    by (simp add: run_fresh Sprintf_int64_def showInt_def showNat.simps privateDirMode_def)
qed

end
